theory Spec2Isabelle
  imports Main "HOL-Library.Word"
begin

section \<open>The lightify gateway client (src/lightify/__init__.py)\<close>

text \<open>
  The module is Python 2 code: it iterates dictionaries with \<open>iteritems\<close> and
  \<open>itervalues\<close>, which exist in Python 2 only. The model follows Python 2:
  \<^item> a byte string (\<open>str\<close>) is a list of bytes, and \<open>+\<close> on two of them never raises
    \<open>TypeError\<close>, so the \<open>except TypeError\<close> handlers of the module never run and are
    left out;
  \<^item> integers are unbounded (\<open>int\<close>);
  \<^item> \<open>struct.pack\<close> raises \<open>struct.error\<close> for a value outside the range of its
    format, \<open>struct.unpack\<close> raises \<open>struct.error\<close> unless the string has exactly the
    size of the format; a repeat count at the end of a format (\<open><Q16\<close>) is ignored.
  A raised exception is a value \<open>Inl e\<close>; the state reached when it is raised is
  returned with it, since nothing is rolled back.
\<close>

subsection \<open>Bytes and the struct module\<close>

type_synonym byte = "8 word"
type_synonym bytes = "byte list"

datatype error = StructError | SocketError | AttributeError

text \<open>Python's \<open>s[a:b]\<close> for \<open>0 \<le> a \<le> b\<close>: shorter than \<open>b - a\<close> when \<open>s\<close> ends early.\<close>

definition slice :: "nat \<Rightarrow> nat \<Rightarrow> 'a list \<Rightarrow> 'a list" where
  "slice a b xs = take (b - a) (drop a xs)"

text \<open>Little-endian bytes of a number, least significant byte first.\<close>

fun le_bytes :: "nat \<Rightarrow> int \<Rightarrow> bytes" where
  "le_bytes 0 v = []"
| "le_bytes (Suc n) v = word_of_int v # le_bytes n (v div 256)"

fun from_le :: "bytes \<Rightarrow> int" where
  "from_le [] = 0"
| "from_le (b # bs) = uint b + 256 * from_le bs"

definition from_be :: "bytes \<Rightarrow> int" where
  "from_be bs = from_le (rev bs)"

text \<open>\<open>struct.pack\<close> of one unsigned field of \<open>n\<close> bytes (\<open>B\<close>, \<open>H\<close>, \<open>Q\<close>).\<close>

definition pack_uint :: "nat \<Rightarrow> int \<Rightarrow> error + bytes" where
  "pack_uint n v = (if 0 \<le> v \<and> v < 256 ^ n then Inr (le_bytes n v) else Inl StructError)"

text \<open>\<open>struct.pack\<close> of a little-endian format: the fields in order, each with its size.\<close>

fun pack_fields :: "(nat \<times> int) list \<Rightarrow> error + bytes" where
  "pack_fields [] = Inr []"
| "pack_fields ((n, v) # fs) =
     (case pack_uint n v of
        Inl e \<Rightarrow> Inl e
      | Inr bs \<Rightarrow> (case pack_fields fs of Inl e \<Rightarrow> Inl e | Inr rest \<Rightarrow> Inr (bs @ rest)))"

text \<open>\<open>struct.unpack\<close> of one unsigned little-endian field of \<open>n\<close> bytes.\<close>

definition unpack_uint :: "nat \<Rightarrow> bytes \<Rightarrow> error + int" where
  "unpack_uint n bs = (if length bs = n then Inr (from_le bs) else Inl StructError)"

text \<open>\<open>struct.unpack(">I", bs)\<close>: four bytes, most significant first.\<close>

definition unpack_be32 :: "bytes \<Rightarrow> error + int" where
  "unpack_be32 bs = (if length bs = 4 then Inr (from_be bs) else Inl StructError)"

text \<open>\<open>name.replace('\0', "")\<close>: every NUL byte is removed, not only the padding.\<close>

definition strip_nul :: "bytes \<Rightarrow> bytes" where
  "strip_nul name = filter (\<lambda>b. b \<noteq> 0) name"

subsection \<open>Command codes\<close>

definition COMMAND_ALL_LIGHT_STATUS :: int where "COMMAND_ALL_LIGHT_STATUS = 0x13"
definition COMMAND_GROUP_LIST :: int where "COMMAND_GROUP_LIST = 0x1e"
definition COMMAND_GROUP_INFO :: int where "COMMAND_GROUP_INFO = 0x26"
definition COMMAND_LUMINANCE :: int where "COMMAND_LUMINANCE = 0x31"
definition COMMAND_ONOFF :: int where "COMMAND_ONOFF = 0x32"
definition COMMAND_TEMP :: int where "COMMAND_TEMP = 0x33"
definition COMMAND_COLOUR :: int where "COMMAND_COLOUR = 0x36"
definition COMMAND_LIGHT_STATUS :: int where "COMMAND_LIGHT_STATUS = 0x68"

subsection \<open>Lights and groups\<close>

text \<open>
  A \<open>Light\<close> object. The constructor sets the name (kept by \<open>Luminary\<close>), id, address
  and type. The status attributes do not exist until \<open>update_status\<close> or a mutator
  assigns them: \<open>None\<close> is an attribute that is not set, and reading it raises
  \<open>AttributeError\<close>. \<open>update_status\<close> stores its name in the attribute
  \<open>_Light__name\<close> (\<open>l_status_name\<close>), while \<open>name()\<close> reads \<open>_Luminary__name\<close>
  (\<open>l_name\<close>).
\<close>

record light =
  l_name :: bytes
  l_id :: int
  l_addr :: int
  l_type :: int
  l_fwVersion :: "int option"
  l_online :: "int option"
  l_groupId :: "int option"
  l_on :: "int option"
  l_lum :: "int option"
  l_temp :: "int option"
  l_r :: "int option"
  l_g :: "int option"
  l_b :: "int option"
  l_alpha :: "int option"
  l_status_name :: "bytes option"

definition Light_init :: "int \<Rightarrow> int \<Rightarrow> int \<Rightarrow> bytes \<Rightarrow> light" where
  "Light_init ident addr type name =
     \<lparr>l_name = name, l_id = ident, l_addr = addr, l_type = type,
      l_fwVersion = None, l_online = None, l_groupId = None, l_on = None, l_lum = None,
      l_temp = None, l_r = None, l_g = None, l_b = None, l_alpha = None,
      l_status_name = None\<rparr>"

definition update_status ::
  "int \<Rightarrow> int \<Rightarrow> int \<Rightarrow> int \<Rightarrow> int \<Rightarrow> int \<Rightarrow> int \<Rightarrow> int \<Rightarrow> int \<Rightarrow> int \<Rightarrow> bytes \<Rightarrow> light \<Rightarrow> light" where
  "update_status fwVersion online groupId status luminance temp red green blue alpha name l =
     l\<lparr>l_fwVersion := Some fwVersion, l_online := Some online, l_groupId := Some groupId,
       l_on := Some status, l_lum := Some luminance, l_temp := Some temp,
       l_r := Some red, l_g := Some green, l_b := Some blue, l_alpha := Some alpha,
       l_status_name := Some name\<rparr>"

text \<open>\<open>format(v, 'x')\<close>: lowercase hexadecimal, no padding, a minus sign when negative.\<close>

definition hex_digit :: "nat \<Rightarrow> char" where
  "hex_digit d = ''0123456789abcdef'' ! d"

fun hex_nat :: "nat \<Rightarrow> string" where
  "hex_nat n = (if n < 16 then [hex_digit n] else hex_nat (n div 16) @ [hex_digit (n mod 16)])"

declare hex_nat.simps [simp del]

definition format_x :: "int \<Rightarrow> string" where
  "format_x v = (if v < 0 then CHR ''-'' # hex_nat (nat (- v)) else hex_nat (nat v))"

fun join :: "'a list \<Rightarrow> 'a list list \<Rightarrow> 'a list" where
  "join sep [] = []"
| "join sep [x] = x"
| "join sep (x # y # ys) = x @ sep @ join sep (y # ys)"

text \<open>\<open>Light.mac\<close>: the slices \<open>[i:i+2]\<close> for \<open>i\<close> in \<open>range(0, 16, 2)\<close>, joined by dashes.\<close>

definition mac :: "light \<Rightarrow> string" where
  "mac l = join ''-'' (map (\<lambda>i. slice i (i + 2) (format_x (l_addr l))) [0, 2, 4, 6, 8, 10, 12, 14])"

record group =
  g_name :: bytes
  g_idx :: int
  g_lights :: "int list"

definition Group_init :: "int \<Rightarrow> bytes \<Rightarrow> group" where
  "Group_init idx name = \<lparr>g_name = name, g_idx = idx, g_lights = []\<rparr>"

subsection \<open>The socket\<close>

text \<open>
  The TCP socket is the environment. \<open>rx\<close> is what the peer will deliver: each
  \<open>Chunk\<close> is a run of bytes that arrive together, \<open>RxError\<close> is a \<open>recv\<close> that
  raises \<open>socket.error\<close>, and the end of the list is the closed connection, where
  \<open>recv\<close> returns the empty string for ever. \<open>tx_errors\<close> says for each coming
  \<open>sendall\<close> whether it raises (no entry: it succeeds); \<open>tx\<close> records what was sent.
\<close>

datatype rx_event = Chunk bytes | RxError

record socket =
  rx :: "rx_event list"
  tx_errors :: "bool list"
  tx :: "bytes list"

text \<open>\<open>sock.recv(n)\<close>: at most \<open>n\<close> bytes of the bytes that have arrived.\<close>

fun sock_recv :: "nat \<Rightarrow> socket \<Rightarrow> (error + bytes) \<times> socket" where
  "sock_recv n sk =
     (case rx sk of
        [] \<Rightarrow> (Inr [], sk)
      | RxError # es \<Rightarrow> (Inl SocketError, sk\<lparr>rx := es\<rparr>)
      | Chunk bs # es \<Rightarrow>
          (if length bs \<le> n then (Inr bs, sk\<lparr>rx := es\<rparr>)
           else (Inr (take n bs), sk\<lparr>rx := Chunk (drop n bs) # es\<rparr>)))"

fun sock_sendall :: "bytes \<Rightarrow> socket \<Rightarrow> (error + unit) \<times> socket" where
  "sock_sendall data sk =
     (case tx_errors sk of
        [] \<Rightarrow> (Inr (), sk\<lparr>tx := tx sk @ [data]\<rparr>)
      | fails # es \<Rightarrow>
          (if fails then (Inl SocketError, sk\<lparr>tx_errors := es\<rparr>)
           else (Inr (), sk\<lparr>tx_errors := es, tx := tx sk @ [data]\<rparr>)))"

subsection \<open>The session\<close>

text \<open>
  The \<open>Lightify\<close> object. Python objects are shared by reference: \<open>lights\<close> maps an
  address to a reference, \<open>heap\<close> holds the \<open>Light\<close> object behind each reference, and
  \<open>next_ref\<close> is the next reference the allocator hands out. A \<open>Group\<close> is not
  changed once it is stored, so \<open>groups\<close> maps a name to the object itself.
\<close>

type_synonym ref = nat

record lightify =
  seq :: int
  groups :: "bytes \<rightharpoonup> group"
  lights :: "int \<rightharpoonup> ref"
  heap :: "ref \<rightharpoonup> light"
  next_ref :: ref
  sock :: socket

text \<open>\<open>Lightify.__init__\<close>, given the socket that \<open>connect\<close> returned.\<close>

definition Lightify_init :: "socket \<Rightarrow> lightify" where
  "Lightify_init sk =
     \<lparr>seq = 1, groups = Map.empty, lights = Map.empty, heap = Map.empty, next_ref = 0,
      sock = sk\<rparr>"

definition next_seq :: "lightify \<Rightarrow> int \<times> lightify" where
  "next_seq s = (seq s + 1, s\<lparr>seq := seq s + 1\<rparr>)"

text \<open>
  The argument \<open>self.next_seq()\<close> is evaluated before \<open>struct.pack\<close> runs, so the
  counter has moved on when the packing raises.
\<close>

definition build_global_command :: "int \<Rightarrow> bytes \<Rightarrow> lightify \<Rightarrow> (error + bytes) \<times> lightify" where
  "build_global_command command data s =
     (let len = 6 + int (length data);
          (sq, s') = next_seq s
      in case pack_fields [(2, len), (1, 0x02), (1, command), (1, 0), (1, 0), (1, 0x7), (1, sq)] of
           Inl e \<Rightarrow> (Inl e, s')
         | Inr hdr \<Rightarrow> (Inr (hdr @ data), s'))"

definition build_basic_command ::
  "int \<Rightarrow> int \<Rightarrow> bytes \<Rightarrow> bytes \<Rightarrow> lightify \<Rightarrow> (error + bytes) \<times> lightify" where
  "build_basic_command flag command group_or_light data s =
     (let len = 14 + int (length data);
          (sq, s') = next_seq s
      in case pack_fields [(2, len), (1, flag), (1, command), (1, 0), (1, 0), (1, 0x7), (1, sq)] of
           Inl e \<Rightarrow> (Inl e, s')
         | Inr hdr \<Rightarrow> (Inr (hdr @ group_or_light @ data), s'))"

text \<open>\<open>struct.pack("<8B", group.idx(), 0, 0, 0, 0, 0, 0, 0)\<close>: the index is one byte.\<close>

definition build_command :: "int \<Rightarrow> group \<Rightarrow> bytes \<Rightarrow> lightify \<Rightarrow> (error + bytes) \<times> lightify" where
  "build_command command grp data s =
     (case pack_fields [(1, g_idx grp), (1, 0), (1, 0), (1, 0), (1, 0), (1, 0), (1, 0), (1, 0)] of
        Inl e \<Rightarrow> (Inl e, s)
      | Inr target \<Rightarrow> build_basic_command 0x02 command target data s)"

definition build_light_command :: "int \<Rightarrow> light \<Rightarrow> bytes \<Rightarrow> lightify \<Rightarrow> (error + bytes) \<times> lightify" where
  "build_light_command command l data s =
     (case pack_uint 8 (l_addr l) of
        Inl e \<Rightarrow> (Inl e, s)
      | Inr target \<Rightarrow> build_basic_command 0x00 command target data s)"

text \<open>
  A luminary is a \<open>Light\<close>, given by its reference, or a \<open>Group\<close>;
  \<open>item.build_command\<close> dispatches on the class. A reference always points to an
  object in Python; the model answers \<open>AttributeError\<close> for one that does not.
\<close>

datatype item = ItemLight ref | ItemGroup group

definition item_build_command :: "item \<Rightarrow> int \<Rightarrow> bytes \<Rightarrow> lightify \<Rightarrow> (error + bytes) \<times> lightify" where
  "item_build_command it command data s =
     (case it of
        ItemLight r \<Rightarrow>
          (case heap s r of
             None \<Rightarrow> (Inl AttributeError, s)
           | Some l \<Rightarrow> build_light_command command l data s)
      | ItemGroup grp \<Rightarrow> build_command command grp data s)"

text \<open>
  The payload \<open>struct.pack(...)\<close> is an argument of \<open>item.build_command\<close>, so it is
  packed first.
\<close>

definition build_onoff :: "item \<Rightarrow> int \<Rightarrow> lightify \<Rightarrow> (error + bytes) \<times> lightify" where
  "build_onoff it on s =
     (case pack_fields [(1, on)] of
        Inl e \<Rightarrow> (Inl e, s)
      | Inr data \<Rightarrow> item_build_command it COMMAND_ONOFF data s)"

definition build_temp :: "item \<Rightarrow> int \<Rightarrow> int \<Rightarrow> lightify \<Rightarrow> (error + bytes) \<times> lightify" where
  "build_temp it temp time s =
     (case pack_fields [(2, temp), (2, time)] of
        Inl e \<Rightarrow> (Inl e, s)
      | Inr data \<Rightarrow> item_build_command it COMMAND_TEMP data s)"

definition build_luminance :: "item \<Rightarrow> int \<Rightarrow> int \<Rightarrow> lightify \<Rightarrow> (error + bytes) \<times> lightify" where
  "build_luminance it luminance time s =
     (case pack_fields [(1, luminance), (2, time)] of
        Inl e \<Rightarrow> (Inl e, s)
      | Inr data \<Rightarrow> item_build_command it COMMAND_LUMINANCE data s)"

definition build_colour :: "item \<Rightarrow> int \<Rightarrow> int \<Rightarrow> int \<Rightarrow> int \<Rightarrow> lightify \<Rightarrow> (error + bytes) \<times> lightify" where
  "build_colour it red green blue time s =
     (case pack_fields [(1, red), (1, green), (1, blue), (1, 0xff), (2, time)] of
        Inl e \<Rightarrow> (Inl e, s)
      | Inr data \<Rightarrow> item_build_command it COMMAND_COLOUR data s)"

definition build_group_info :: "group \<Rightarrow> lightify \<Rightarrow> (error + bytes) \<times> lightify" where
  "build_group_info grp s = build_command COMMAND_GROUP_INFO grp [] s"

definition build_all_light_status :: "int \<Rightarrow> lightify \<Rightarrow> (error + bytes) \<times> lightify" where
  "build_all_light_status flag s =
     (case pack_fields [(1, flag)] of
        Inl e \<Rightarrow> (Inl e, s)
      | Inr data \<Rightarrow> build_global_command COMMAND_ALL_LIGHT_STATUS data s)"

definition build_group_list :: "lightify \<Rightarrow> (error + bytes) \<times> lightify" where
  "build_group_list s = build_global_command COMMAND_GROUP_LIST [] s"

subsection \<open>Sending and receiving\<close>

definition send :: "bytes \<Rightarrow> lightify \<Rightarrow> (error + unit) \<times> lightify" where
  "send data s = (case sock_sendall data (sock s) of (res, sk) \<Rightarrow> (res, s\<lparr>sock := sk\<rparr>))"

text \<open>
  The loop of \<open>recv\<close>. It runs for ever when the connection is closed before
  \<open>expected\<close> bytes came (\<open>recv\<close> then returns the empty string each time), so it is
  a partial function: \<open>None\<close> is the call that does not return. The loop returns
  \<open>data\<close>, the bytes of the last read; \<open>string\<close>, where it collects all of them, is
  only logged.
\<close>

partial_function (option) recv_loop ::
  "int \<Rightarrow> bytes \<Rightarrow> bytes \<Rightarrow> lightify \<Rightarrow> ((error + bytes) \<times> lightify) option" where
  "recv_loop expected string data s =
     (if expected > 0 then
        (case sock_recv (nat expected) (sock s) of
           (Inl e, sk) \<Rightarrow> Some (Inl e, s\<lparr>sock := sk\<rparr>)
         | (Inr d, sk) \<Rightarrow>
             recv_loop (expected - int (length d)) (string @ d) d (s\<lparr>sock := sk\<rparr>))
      else Some (Inr data, s))"

definition recv :: "lightify \<Rightarrow> ((error + bytes) \<times> lightify) option" where
  "recv s =
     (case sock_recv 2 (sock s) of
        (Inl e, sk) \<Rightarrow> Some (Inl e, s\<lparr>sock := sk\<rparr>)
      | (Inr data, sk) \<Rightarrow>
          (case unpack_uint 2 (slice 0 2 data) of
             Inl e \<Rightarrow> Some (Inl e, s\<lparr>sock := sk\<rparr>)
           | Inr len \<Rightarrow> recv_loop (len + 2 - int (length data)) [] data (s\<lparr>sock := sk\<rparr>)))"

text \<open>
  The pattern \<open>data = self.build_...(); self.send(data); data = self.recv()\<close> that
  every request follows: nothing is sent when the frame could not be built, nothing is
  read when the sending raised.
\<close>

definition send_recv :: "(error + bytes) \<times> lightify \<Rightarrow> ((error + bytes) \<times> lightify) option" where
  "send_recv built =
     (case built of
        (Inl e, s) \<Rightarrow> Some (Inl e, s)
      | (Inr data, s) \<Rightarrow>
          (case send data s of
             (Inl e, s') \<Rightarrow> Some (Inl e, s')
           | (Inr u, s') \<Rightarrow> recv s'))"

text \<open>A mutator of \<open>Luminary\<close> discards the acknowledgement.\<close>

definition discard :: "((error + bytes) \<times> lightify) option \<Rightarrow> ((error + unit) \<times> lightify) option" where
  "discard res =
     (case res of
        None \<Rightarrow> None
      | Some (Inl e, s) \<Rightarrow> Some (Inl e, s)
      | Some (Inr data, s) \<Rightarrow> Some (Inr (), s))"

subsection \<open>The mutators of Luminary and Light\<close>

definition Luminary_set_onoff :: "item \<Rightarrow> int \<Rightarrow> lightify \<Rightarrow> ((error + unit) \<times> lightify) option" where
  "Luminary_set_onoff it on s = discard (send_recv (build_onoff it on s))"

definition Luminary_set_luminance ::
  "item \<Rightarrow> int \<Rightarrow> int \<Rightarrow> lightify \<Rightarrow> ((error + unit) \<times> lightify) option" where
  "Luminary_set_luminance it lum time s = discard (send_recv (build_luminance it lum time s))"

definition Luminary_set_temperature ::
  "item \<Rightarrow> int \<Rightarrow> int \<Rightarrow> lightify \<Rightarrow> ((error + unit) \<times> lightify) option" where
  "Luminary_set_temperature it temp time s = discard (send_recv (build_temp it temp time s))"

definition Luminary_set_rgb ::
  "item \<Rightarrow> int \<Rightarrow> int \<Rightarrow> int \<Rightarrow> int \<Rightarrow> lightify \<Rightarrow> ((error + unit) \<times> lightify) option" where
  "Luminary_set_rgb it r g b time s = discard (send_recv (build_colour it r g b time s))"

text \<open>Assigning an attribute of the object behind a reference, and reading one.\<close>

definition upd_light :: "ref \<Rightarrow> (light \<Rightarrow> light) \<Rightarrow> lightify \<Rightarrow> lightify" where
  "upd_light r f s = (case heap s r of None \<Rightarrow> s | Some l \<Rightarrow> s\<lparr>heap := (heap s)(r \<mapsto> f l)\<rparr>)"

definition attr :: "(light \<Rightarrow> 'a option) \<Rightarrow> ref \<Rightarrow> lightify \<Rightarrow> 'a option" where
  "attr f r s = (case heap s r of None \<Rightarrow> None | Some l \<Rightarrow> f l)"

definition Light_set_onoff :: "ref \<Rightarrow> int \<Rightarrow> lightify \<Rightarrow> ((error + unit) \<times> lightify) option" where
  "Light_set_onoff r on s =
     (case Luminary_set_onoff (ItemLight r) on (upd_light r (\<lambda>l. l\<lparr>l_on := Some on\<rparr>) s) of
        None \<Rightarrow> None
      | Some (Inl e, s') \<Rightarrow> Some (Inl e, s')
      | Some (Inr u, s') \<Rightarrow>
          (case attr l_lum r s' of
             None \<Rightarrow> Some (Inl AttributeError, s')
           | Some v \<Rightarrow>
               (if v = 0 \<and> on \<noteq> 0
                then Some (Inr (), upd_light r (\<lambda>l. l\<lparr>l_lum := Some 1\<rparr>) s')
                else Some (Inr (), s'))))"

text \<open>
  \<open>if lum > 0 and self.__on == 0: ... elif lum == 0 and self.__on != 0: ...\<close>:
  \<open>and\<close> reads \<open>self.__on\<close> only when its left side holds.
\<close>

definition Light_set_luminance ::
  "ref \<Rightarrow> int \<Rightarrow> int \<Rightarrow> lightify \<Rightarrow> ((error + unit) \<times> lightify) option" where
  "Light_set_luminance r lum time s =
     (case Luminary_set_luminance (ItemLight r) lum time
             (upd_light r (\<lambda>l. l\<lparr>l_lum := Some lum\<rparr>) s) of
        None \<Rightarrow> None
      | Some (Inl e, s') \<Rightarrow> Some (Inl e, s')
      | Some (Inr u, s') \<Rightarrow>
          (if lum > 0 then
             (case attr l_on r s' of
                None \<Rightarrow> Some (Inl AttributeError, s')
              | Some on \<Rightarrow>
                  (if on = 0 then Some (Inr (), upd_light r (\<lambda>l. l\<lparr>l_on := Some 1\<rparr>) s')
                   else Some (Inr (), s')))
           else if lum = 0 then
             (case attr l_on r s' of
                None \<Rightarrow> Some (Inl AttributeError, s')
              | Some on \<Rightarrow>
                  (if on \<noteq> 0 then Some (Inr (), upd_light r (\<lambda>l. l\<lparr>l_on := Some 0\<rparr>) s')
                   else Some (Inr (), s')))
           else Some (Inr (), s')))"

definition Light_set_temperature ::
  "ref \<Rightarrow> int \<Rightarrow> int \<Rightarrow> lightify \<Rightarrow> ((error + unit) \<times> lightify) option" where
  "Light_set_temperature r temp time s =
     Luminary_set_temperature (ItemLight r) temp time
       (upd_light r (\<lambda>l. l\<lparr>l_temp := Some temp\<rparr>) s)"

definition Light_set_rgb ::
  "ref \<Rightarrow> int \<Rightarrow> int \<Rightarrow> int \<Rightarrow> int \<Rightarrow> lightify \<Rightarrow> ((error + unit) \<times> lightify) option" where
  "Light_set_rgb r red green blue time s =
     Luminary_set_rgb (ItemLight r) red green blue time
       (upd_light r (\<lambda>l. l\<lparr>l_r := Some red, l_g := Some green, l_b := Some blue\<rparr>) s)"

subsection \<open>Groups\<close>

text \<open>
  The dictionary that \<open>group_list\<close> fills is kept as a list of pairs: assigning to a
  key that is there replaces its value, a new key goes to the end.
\<close>

fun dict_set :: "'k \<Rightarrow> 'v \<Rightarrow> ('k \<times> 'v) list \<Rightarrow> ('k \<times> 'v) list" where
  "dict_set k v [] = [(k, v)]"
| "dict_set k v ((k', v') # kvs) =
     (if k' = k then (k, v) # kvs else (k', v') # dict_set k v kvs)"

text \<open>\<open>struct.unpack("<H16s", payload)\<close>: 18 bytes, an index and a name.\<close>

definition unpack_H16s :: "bytes \<Rightarrow> error + (int \<times> bytes)" where
  "unpack_H16s bs =
     (if length bs = 18 then Inr (from_le (take 2 bs), take 16 (drop 2 bs)) else Inl StructError)"

text \<open>\<open>struct.unpack("<H16sB", payload)\<close>: 19 bytes, an index, a name and a count.\<close>

definition unpack_H16sB :: "bytes \<Rightarrow> error + (int \<times> bytes \<times> int)" where
  "unpack_H16sB bs =
     (if length bs = 19
      then Inr (from_le (take 2 bs), take 16 (drop 2 bs), from_le (take 1 (drop 18 bs)))
      else Inl StructError)"

text \<open>The loop of \<open>group_list\<close> over \<open>range(0, num)\<close>.\<close>

fun group_list_loop :: "bytes \<Rightarrow> nat list \<Rightarrow> (int \<times> bytes) list \<Rightarrow> error + (int \<times> bytes) list" where
  "group_list_loop data [] grps = Inr grps"
| "group_list_loop data (i # is) grps =
     (let pos = 9 + i * 18;
          payload = slice pos (pos + 18) data
      in case unpack_H16s payload of
           Inl e \<Rightarrow> Inl e
         | Inr (idx, name) \<Rightarrow> group_list_loop data is (dict_set idx (strip_nul name) grps))"

definition group_list :: "lightify \<Rightarrow> ((error + (int \<times> bytes) list) \<times> lightify) option" where
  "group_list s =
     (case send_recv (build_group_list s) of
        None \<Rightarrow> None
      | Some (Inl e, s') \<Rightarrow> Some (Inl e, s')
      | Some (Inr data, s') \<Rightarrow>
          (case unpack_uint 2 (slice 7 9 data) of
             Inl e \<Rightarrow> Some (Inl e, s')
           | Inr num \<Rightarrow>
               (case group_list_loop data [0..<nat num] [] of
                  Inl e \<Rightarrow> Some (Inl e, s')
                | Inr grps \<Rightarrow> Some (Inr grps, s'))))"

text \<open>The loop of \<open>group_info\<close> over \<open>range(0, num)\<close>.\<close>

fun group_info_loop :: "bytes \<Rightarrow> nat list \<Rightarrow> int list \<Rightarrow> error + int list" where
  "group_info_loop data [] members = Inr members"
| "group_info_loop data (i # is) members =
     (let pos = 7 + 19 + i * 8;
          payload = slice pos (pos + 8) data
      in case unpack_uint 8 (slice 0 8 payload) of
           Inl e \<Rightarrow> Inl e
         | Inr addr \<Rightarrow> group_info_loop data is (members @ [addr]))"

definition group_info :: "group \<Rightarrow> lightify \<Rightarrow> ((error + int list) \<times> lightify) option" where
  "group_info grp s =
     (case send_recv (build_group_info grp s) of
        None \<Rightarrow> None
      | Some (Inl e, s') \<Rightarrow> Some (Inl e, s')
      | Some (Inr data, s') \<Rightarrow>
          (case unpack_H16sB (slice 0 19 (drop 7 data)) of
             Inl e \<Rightarrow> Some (Inl e, s')
           | Inr (idx, name, num) \<Rightarrow>
               (case group_info_loop data [0..<nat num] [] of
                  Inl e \<Rightarrow> Some (Inl e, s')
                | Inr members \<Rightarrow> Some (Inr members, s'))))"

text \<open>The loop of \<open>update_group_list\<close> over the items of the dictionary.\<close>

fun update_group_loop ::
  "(int \<times> bytes) list \<Rightarrow> (bytes \<rightharpoonup> group) \<Rightarrow> lightify \<Rightarrow>
   ((error + (bytes \<rightharpoonup> group)) \<times> lightify) option" where
  "update_group_loop [] grps s = Some (Inr grps, s)"
| "update_group_loop ((idx, name) # rest) grps s =
     (case group_info (Group_init idx name) s of
        None \<Rightarrow> None
      | Some (Inl e, s') \<Rightarrow> Some (Inl e, s')
      | Some (Inr members, s') \<Rightarrow>
          update_group_loop rest
            (grps(name \<mapsto> (Group_init idx name)\<lparr>g_lights := members\<rparr>)) s')"

text \<open>
  A Python 2 dictionary is iterated in the order of its hash table. \<open>iteritems\<close> is
  that order: what the interpreter makes of the dictionary. It is a parameter, and
  nothing is assumed about it.
\<close>

definition update_group_list ::
  "((int \<times> bytes) list \<Rightarrow> (int \<times> bytes) list) \<Rightarrow> lightify \<Rightarrow> ((error + unit) \<times> lightify) option" where
  "update_group_list iteritems s =
     (case group_list s of
        None \<Rightarrow> None
      | Some (Inl e, s') \<Rightarrow> Some (Inl e, s')
      | Some (Inr lst, s') \<Rightarrow>
          (case update_group_loop (iteritems lst) Map.empty s' of
             None \<Rightarrow> None
           | Some (Inl e, s'') \<Rightarrow> Some (Inl e, s'')
           | Some (Inr grps, s'') \<Rightarrow> Some (Inr (), s''\<lparr>groups := grps\<rparr>)))"

subsection \<open>The status of all lights\<close>

text \<open>The fields that \<open>update_all_light_status\<close> unpacks from one entry of 50 bytes.\<close>

record entry =
  e_id :: int
  e_mac :: int
  e_type :: int
  e_fwVersion :: int
  e_online :: int
  e_groupId :: int
  e_status :: int
  e_brightness :: int
  e_temp :: int
  e_red :: int
  e_green :: int
  e_blue :: int
  e_alpha :: int
  e_name :: bytes
  e_unknown :: int

definition bind_err :: "error + 'a \<Rightarrow> ('a \<Rightarrow> error + 'b) \<Rightarrow> error + 'b" where
  "bind_err x f = (case x of Inl e \<Rightarrow> Inl e | Inr v \<Rightarrow> f v)"

text \<open>\<open>struct.unpack("<BH", bs)\<close> and \<open>struct.unpack("<BBBB", bs)\<close>.\<close>

definition unpack_BH :: "bytes \<Rightarrow> error + (int \<times> int)" where
  "unpack_BH bs =
     (if length bs = 3 then Inr (from_le (take 1 bs), from_le (drop 1 bs)) else Inl StructError)"

definition unpack_BBBB :: "bytes \<Rightarrow> error + (int \<times> int \<times> int \<times> int)" where
  "unpack_BBBB bs =
     (if length bs = 4
      then Inr (from_le (slice 0 1 bs), from_le (slice 1 2 bs), from_le (slice 2 3 bs),
                from_le (slice 3 4 bs))
      else Inl StructError)"

text \<open>
  The body of the loop up to the log lines, in the order of the source. The name is
  a slice and cannot fail; the last eight bytes are unpacked and only logged.
\<close>

definition decode_entry :: "bytes \<Rightarrow> error + entry" where
  "decode_entry payload =
     bind_err (unpack_uint 2 (slice 0 2 payload)) (\<lambda>ident.
     bind_err (unpack_uint 8 (slice 2 10 payload)) (\<lambda>mac.
     bind_err (unpack_uint 1 (slice 10 11 payload)) (\<lambda>type.
     bind_err (unpack_be32 (slice 11 15 payload)) (\<lambda>fwVersion.
     bind_err (unpack_uint 1 (slice 15 16 payload)) (\<lambda>online.
     bind_err (unpack_uint 2 (slice 16 18 payload)) (\<lambda>groupId.
     bind_err (unpack_uint 1 (slice 18 19 payload)) (\<lambda>status.
     bind_err (unpack_BH (slice 19 22 payload)) (\<lambda>(brightness, temp).
     bind_err (unpack_BBBB (slice 22 26 payload)) (\<lambda>(red, green, blue, alpha).
     bind_err (unpack_uint 8 (slice 42 50 payload)) (\<lambda>unknown.
       Inr \<lparr>e_id = ident, e_mac = mac, e_type = type, e_fwVersion = fwVersion,
            e_online = online, e_groupId = groupId, e_status = status,
            e_brightness = brightness, e_temp = temp, e_red = red, e_green = green,
            e_blue = blue, e_alpha = alpha, e_name = strip_nul (slice 26 42 payload),
            e_unknown = unknown\<rparr>))))))))))"

definition entry_update :: "entry \<Rightarrow> light \<Rightarrow> light" where
  "entry_update e =
     update_status (e_fwVersion e) (e_online e) (e_groupId e) (e_status e) (e_brightness e)
       (e_temp e) (e_red e) (e_green e) (e_blue e) (e_alpha e) (e_name e)"

text \<open>
  The end of the loop body: \<open>old_lights\<close> is the registry of the session. A light
  that it knows is the same object afterwards, changed in place by \<open>update_status\<close>;
  a light that it does not know is a new object. Either is entered in \<open>new_lights\<close>.
\<close>

definition merge_entry ::
  "(int \<rightharpoonup> ref) \<Rightarrow> entry \<Rightarrow> (int \<rightharpoonup> ref) \<times> lightify \<Rightarrow> (int \<rightharpoonup> ref) \<times> lightify" where
  "merge_entry old_lights e st =
     (case st of (new_lights, s) \<Rightarrow>
        (case old_lights (e_mac e) of
           Some r \<Rightarrow> (new_lights(e_mac e \<mapsto> r), upd_light r (entry_update e) s)
         | None \<Rightarrow>
             (new_lights(e_mac e \<mapsto> next_ref s),
              s\<lparr>heap := (heap s)(next_ref s \<mapsto>
                           entry_update e (Light_init (e_id e) (e_mac e) (e_type e) (e_name e))),
                next_ref := Suc (next_ref s)\<rparr>)))"

text \<open>The loop of \<open>update_all_light_status\<close> over \<open>range(0, num)\<close>.\<close>

fun status_loop ::
  "bytes \<Rightarrow> (int \<rightharpoonup> ref) \<Rightarrow> nat list \<Rightarrow> (int \<rightharpoonup> ref) \<times> lightify \<Rightarrow>
   (error + (int \<rightharpoonup> ref)) \<times> lightify" where
  "status_loop data old_lights [] st = (Inr (fst st), snd st)"
| "status_loop data old_lights (i # is) st =
     (let pos = 9 + i * 50;
          payload = slice pos (pos + 50) data
      in case decode_entry payload of
           Inl e \<Rightarrow> (Inl e, snd st)
         | Inr e \<Rightarrow> status_loop data old_lights is (merge_entry old_lights e st))"

definition update_all_light_status :: "lightify \<Rightarrow> ((error + unit) \<times> lightify) option" where
  "update_all_light_status s =
     (case send_recv (build_all_light_status 1 s) of
        None \<Rightarrow> None
      | Some (Inl e, s') \<Rightarrow> Some (Inl e, s')
      | Some (Inr data, s') \<Rightarrow>
          (case unpack_uint 2 (slice 7 9 data) of
             Inl e \<Rightarrow> Some (Inl e, s')
           | Inr num \<Rightarrow>
               (case status_loop data (lights s') [0..<nat num] (Map.empty, s') of
                  (Inl e, s'') \<Rightarrow> Some (Inl e, s'')
                | (Inr new_lights, s'') \<Rightarrow> Some (Inr (), s''\<lparr>lights := new_lights\<rparr>))))"

subsection \<open>Sequences of calls\<close>

text \<open>
  A caller that uses the two local mutators of one light, one call after the other;
  an exception ends the sequence.
\<close>

datatype call = SetOnOff int | SetLuminance int int

definition run_call :: "ref \<Rightarrow> call \<Rightarrow> lightify \<Rightarrow> ((error + unit) \<times> lightify) option" where
  "run_call r c s =
     (case c of
        SetOnOff on \<Rightarrow> Light_set_onoff r on s
      | SetLuminance lum time \<Rightarrow> Light_set_luminance r lum time s)"

fun run_calls :: "ref \<Rightarrow> call list \<Rightarrow> lightify \<Rightarrow> ((error + unit) \<times> lightify) option" where
  "run_calls r [] s = Some (Inr (), s)"
| "run_calls r (c # cs) s =
     (case run_call r c s of
        None \<Rightarrow> None
      | Some (Inl e, s') \<Rightarrow> Some (Inl e, s')
      | Some (Inr u, s') \<Rightarrow> run_calls r cs s')"

text \<open>
  Every command of the module gets its frame from \<open>build_global_command\<close> or from
  \<open>build_basic_command\<close>. \<open>issue_all\<close> is a session that builds one frame after
  the other and goes on after a frame that could not be built.
\<close>

datatype command = Global int bytes | Basic int int bytes bytes

definition issue :: "command \<Rightarrow> lightify \<Rightarrow> (error + bytes) \<times> lightify" where
  "issue c s =
     (case c of
        Global cmd data \<Rightarrow> build_global_command cmd data s
      | Basic flag cmd target data \<Rightarrow> build_basic_command flag cmd target data s)"

fun issue_all :: "command list \<Rightarrow> lightify \<Rightarrow> lightify" where
  "issue_all [] s = s"
| "issue_all (c # cs) s = issue_all cs (snd (issue c s))"

text \<open>The arguments of a command that \<open>struct.pack\<close> accepts, the sequence number apart.\<close>

definition packable :: "command \<Rightarrow> bool" where
  "packable c =
     (case c of
        Global cmd data \<Rightarrow> 0 \<le> cmd \<and> cmd < 256 \<and> 6 + length data < 65536
      | Basic flag cmd target data \<Rightarrow>
          0 \<le> flag \<and> flag < 256 \<and> 0 \<le> cmd \<and> cmd < 256 \<and> 14 + length data < 65536)"

subsection \<open>Notions of the statements\<close>

text \<open>Two states with the same objects: they differ in the counter and the socket only.\<close>

definition same_objects :: "lightify \<Rightarrow> lightify \<Rightarrow> bool" where
  "same_objects s s' \<longleftrightarrow>
     heap s' = heap s \<and> lights s' = lights s \<and> groups s' = groups s \<and> next_ref s' = next_ref s"

text \<open>
  The layout of one entry of the all-light-status response as the specification
  words it: id, address, type, firmware version (big-endian), online flag, group id,
  status, brightness, temperature, red, green, blue, alpha, the name padded with NUL
  to 16 bytes, and 8 more bytes.
\<close>

definition encode_entry :: "entry \<Rightarrow> bytes" where
  "encode_entry e =
     le_bytes 2 (e_id e) @ le_bytes 8 (e_mac e) @ le_bytes 1 (e_type e) @
     rev (le_bytes 4 (e_fwVersion e)) @ le_bytes 1 (e_online e) @ le_bytes 2 (e_groupId e) @
     le_bytes 1 (e_status e) @ le_bytes 1 (e_brightness e) @ le_bytes 2 (e_temp e) @
     le_bytes 1 (e_red e) @ le_bytes 1 (e_green e) @ le_bytes 1 (e_blue e) @
     le_bytes 1 (e_alpha e) @ (e_name e @ replicate (16 - length (e_name e)) 0) @
     le_bytes 8 (e_unknown e)"

definition in_range :: "nat \<Rightarrow> int \<Rightarrow> bool" where
  "in_range n v \<longleftrightarrow> 0 \<le> v \<and> v < 256 ^ n"

definition wf_entry :: "entry \<Rightarrow> bool" where
  "wf_entry e \<longleftrightarrow>
     in_range 2 (e_id e) \<and> in_range 8 (e_mac e) \<and> in_range 1 (e_type e) \<and>
     in_range 4 (e_fwVersion e) \<and> in_range 1 (e_online e) \<and> in_range 2 (e_groupId e) \<and>
     in_range 1 (e_status e) \<and> in_range 1 (e_brightness e) \<and> in_range 2 (e_temp e) \<and>
     in_range 1 (e_red e) \<and> in_range 1 (e_green e) \<and> in_range 1 (e_blue e) \<and>
     in_range 1 (e_alpha e) \<and> length (e_name e) \<le> 16 \<and> 0 \<notin> set (e_name e) \<and>
     in_range 8 (e_unknown e)"

text \<open>The \<open>Light\<close> that has the attribute values of an entry.\<close>

definition light_of :: "entry \<Rightarrow> light" where
  "light_of e =
     \<lparr>l_name = e_name e, l_id = e_id e, l_addr = e_mac e, l_type = e_type e,
      l_fwVersion = Some (e_fwVersion e), l_online = Some (e_online e),
      l_groupId = Some (e_groupId e), l_on = Some (e_status e),
      l_lum = Some (e_brightness e), l_temp = Some (e_temp e), l_r = Some (e_red e),
      l_g = Some (e_green e), l_b = Some (e_blue e), l_alpha = Some (e_alpha e),
      l_status_name = Some (e_name e)\<rparr>"

text \<open>An all-light-status response: seven bytes of header, the count, the entries.\<close>

definition status_body :: "bytes \<Rightarrow> entry list \<Rightarrow> bytes" where
  "status_body hdr es = hdr @ le_bytes 2 (int (length es)) @ concat (map encode_entry es)"

text \<open>A frame on the wire: the length of the body in two bytes, then the body.\<close>

definition wire_frame :: "bytes \<Rightarrow> bytes" where
  "wire_frame body = le_bytes 2 (int (length body)) @ body"

subsection \<open>Examples\<close>

text \<open>
  The entry of the example: id 1, address \<open>0xAABBCCDDEEFF0011\<close>, type 2, firmware
  \<open>0x01020304\<close>, online, group 3, on, brightness 128, 2700 K, colour 255/200/150/255,
  name \<open>Test\<close>.
\<close>

definition test_entry :: entry where
  "test_entry =
     \<lparr>e_id = 1, e_mac = 0xAABBCCDDEEFF0011, e_type = 2, e_fwVersion = 0x01020304,
      e_online = 1, e_groupId = 3, e_status = 1, e_brightness = 128, e_temp = 2700,
      e_red = 255, e_green = 200, e_blue = 150, e_alpha = 255,
      e_name = [0x54, 0x65, 0x73, 0x74], e_unknown = 0\<rparr>"

text \<open>An acknowledgement that arrives in one piece.\<close>

definition ack :: rx_event where
  "ack = Chunk (wire_frame [0x01, 0x32, 0, 0, 0, 0, 0])"

definition plain_socket :: "rx_event list \<Rightarrow> socket" where
  "plain_socket events = \<lparr>rx = events, tx_errors = [], tx = []\<rparr>"

text \<open>A session that knows the light of the example, as object 0.\<close>

definition one_light :: "socket \<Rightarrow> lightify" where
  "one_light sk =
     (Lightify_init sk)\<lparr>lights := [e_mac test_entry \<mapsto> 0], heap := [0 \<mapsto> light_of test_entry],
                         next_ref := 1\<rparr>"

text \<open>
  A group-list response with one group, index 5 and name \<open>Kitchen\<close>, and a session
  whose group registry holds an earlier group.
\<close>

definition kitchen_list :: bytes where
  "kitchen_list =
     [0, 0x1e, 0, 0, 0, 0, 0] @ [1, 0] @ [5, 0] @
     [0x4B, 0x69, 0x74, 0x63, 0x68, 0x65, 0x6E, 0, 0, 0, 0, 0, 0, 0, 0, 0]"

definition one_group :: "socket \<Rightarrow> lightify" where
  "one_group sk =
     (Lightify_init sk)\<lparr>groups := [[0x48, 0x61, 0x6C, 0x6C] \<mapsto> Group_init 1 [0x48, 0x61, 0x6C, 0x6C]]\<rparr>"

text \<open>
  An all-light-status response that announces two entries and ends after the first,
  which is the entry of the example with brightness 10.
\<close>

definition dimmed_entry :: entry where
  "dimmed_entry = test_entry\<lparr>e_brightness := 10\<rparr>"

definition truncated_status :: bytes where
  "truncated_status = [0, 0x13, 0, 0, 0, 0, 0] @ le_bytes 2 2 @ encode_entry dimmed_entry"

section \<open>Theorems\<close>

subsection \<open>The wire round trip changes the counter and the socket only\<close>

lemma recv_loop_same_objects:
  "recv_loop e str d s = Some y \<Longrightarrow> same_objects s (snd y)"
proof (induction e str d s y rule: recv_loop.raw_induct[rotated 1, consumes 1, case_names step])
  case (step f expected string data s y)
  show ?case
  proof (cases "0 < expected")
    case False
    with step(2) show ?thesis by (auto simp: same_objects_def)
  next
    case True
    obtain res sk where rs: "sock_recv (nat expected) (sock s) = (res, sk)"
      by (cases "sock_recv (nat expected) (sock s)")
    show ?thesis
    proof (cases res)
      case (Inl e)
      with step(2) True rs show ?thesis by (auto simp: same_objects_def)
    next
      case (Inr d)
      with step(2) True rs
      have "f (expected - int (length d)) (string @ d) d (s\<lparr>sock := sk\<rparr>) = Some y"
        by simp
      then have "same_objects (s\<lparr>sock := sk\<rparr>) (snd y)" by (rule step(1))
      then show ?thesis by (simp add: same_objects_def)
    qed
  qed
qed

lemma recv_same_objects: "recv s = Some y \<Longrightarrow> same_objects s (snd y)"
  unfolding recv_def
  by (auto split: prod.splits sum.splits dest!: recv_loop_same_objects
      simp: same_objects_def simp del: sock_recv.simps)

lemma send_same_objects: "same_objects s (snd (send data s))"
  by (simp add: send_def same_objects_def split: prod.splits)

lemma build_basic_same_objects: "same_objects s (snd (build_basic_command f c t d s))"
  by (simp add: build_basic_command_def next_seq_def same_objects_def split: sum.splits)

lemma build_global_same_objects: "same_objects s (snd (build_global_command c d s))"
  by (simp add: build_global_command_def next_seq_def same_objects_def split: sum.splits)

lemma build_command_same_objects: "same_objects s (snd (build_command c g d s))"
  unfolding build_command_def
  by (simp add: build_basic_same_objects split: sum.splits) (simp add: same_objects_def)

lemma build_light_same_objects: "same_objects s (snd (build_light_command c l d s))"
  unfolding build_light_command_def
  by (simp add: build_basic_same_objects split: sum.splits) (simp add: same_objects_def)

lemma item_build_same_objects: "same_objects s (snd (item_build_command it c d s))"
  unfolding item_build_command_def
  by (simp add: build_light_same_objects build_command_same_objects split: item.splits option.splits)
     (simp add: same_objects_def)

lemma build_onoff_same_objects: "same_objects s (snd (build_onoff it on s))"
  unfolding build_onoff_def
  by (simp add: item_build_same_objects split: sum.splits) (simp add: same_objects_def)

lemma build_luminance_same_objects: "same_objects s (snd (build_luminance it l t s))"
  unfolding build_luminance_def
  by (simp add: item_build_same_objects split: sum.splits) (simp add: same_objects_def)

lemma build_temp_same_objects: "same_objects s (snd (build_temp it l t s))"
  unfolding build_temp_def
  by (simp add: item_build_same_objects split: sum.splits) (simp add: same_objects_def)

lemma build_colour_same_objects: "same_objects s (snd (build_colour it r g b t s))"
  unfolding build_colour_def
  by (simp add: item_build_same_objects split: sum.splits) (simp add: same_objects_def)

lemma same_objects_trans: "same_objects s s1 \<Longrightarrow> same_objects s1 s2 \<Longrightarrow> same_objects s s2"
  by (simp add: same_objects_def)

lemma send_recv_same_objects:
  assumes "same_objects s (snd built)" and "send_recv built = Some y"
  shows "same_objects s (snd y)"
proof (cases built)
  case (Pair res s1)
  with assms(1) have s1: "same_objects s s1" by simp
  show ?thesis
  proof (cases res)
    case (Inl e)
    with Pair assms show ?thesis by (auto simp: send_recv_def)
  next
    case (Inr data)
    obtain r2 s2 where sd: "send data s1 = (r2, s2)" by (cases "send data s1")
    have s2: "same_objects s1 s2" using send_same_objects[of s1 data] sd by simp
    show ?thesis
    proof (cases r2)
      case (Inl e)
      with Pair Inr sd assms(2) have "y = (Inl e, s2)" by (simp add: send_recv_def)
      with s1 s2 show ?thesis by (auto intro: same_objects_trans)
    next
      case (Inr u)
      with Pair \<open>res = Inr data\<close> sd assms(2) have "recv s2 = Some y" by (simp add: send_recv_def)
      from recv_same_objects[OF this] s1 s2 show ?thesis by (blast intro: same_objects_trans)
    qed
  qed
qed

lemma discard_Some:
  "discard x = Some y \<Longrightarrow> \<exists>z. x = Some z \<and> snd z = snd y"
  by (auto simp: discard_def split: option.splits prod.splits sum.splits)

lemma Luminary_set_onoff_same_objects:
  "Luminary_set_onoff it on s = Some y \<Longrightarrow> same_objects s (snd y)"
  unfolding Luminary_set_onoff_def
  by (metis discard_Some send_recv_same_objects build_onoff_same_objects)

lemma Luminary_set_luminance_same_objects:
  "Luminary_set_luminance it l t s = Some y \<Longrightarrow> same_objects s (snd y)"
  unfolding Luminary_set_luminance_def
  by (metis discard_Some send_recv_same_objects build_luminance_same_objects)

lemma Luminary_set_temperature_same_objects:
  "Luminary_set_temperature it l t s = Some y \<Longrightarrow> same_objects s (snd y)"
  unfolding Luminary_set_temperature_def
  by (metis discard_Some send_recv_same_objects build_temp_same_objects)

lemma Luminary_set_rgb_same_objects:
  "Luminary_set_rgb it r g b t s = Some y \<Longrightarrow> same_objects s (snd y)"
  unfolding Luminary_set_rgb_def
  by (metis discard_Some send_recv_same_objects build_colour_same_objects)

subsection \<open>Calls that return\<close>

lemma heap_upd_light:
  "heap s r = Some l \<Longrightarrow> heap (upd_light r f s) = (heap s)(r \<mapsto> f l)"
  by (simp add: upd_light_def)

lemma heap_upd_light_None: "heap s r = None \<Longrightarrow> upd_light r f s = s"
  by (simp add: upd_light_def)

lemma build_needs_object:
  "heap s r = None \<Longrightarrow> fst (item_build_command (ItemLight r) c d s) = Inl AttributeError"
  by (simp add: item_build_command_def)

lemma send_recv_Inl: "send_recv (Inl e, s) = Some (Inl e, s)"
  by (simp add: send_recv_def)

lemma pack_fields_Inr_first:
  "pack_fields ((n, v) # fs) = Inr bs \<Longrightarrow> 0 \<le> v \<and> v < 256 ^ n"
  by (auto simp: pack_uint_def split: if_splits sum.splits)

lemma discard_Inr:
  "discard x = Some (Inr u, s') \<Longrightarrow> \<exists>data. x = Some (Inr data, s')"
  by (auto simp: discard_def split: option.splits prod.splits sum.splits)

lemma send_recv_Inr:
  "send_recv built = Some (Inr data, s') \<Longrightarrow> \<exists>frame s1. built = (Inr frame, s1)"
  by (cases built) (auto simp: send_recv_def split: sum.splits)

lemma Luminary_set_onoff_ok:
  assumes "Luminary_set_onoff (ItemLight r) on s = Some (Inr u, s')"
  shows "heap s r \<noteq> None \<and> 0 \<le> on \<and> on < 256 \<and> heap s' = heap s"
proof -
  from assms obtain data where "send_recv (build_onoff (ItemLight r) on s) = Some (Inr data, s')"
    unfolding Luminary_set_onoff_def by (blast dest: discard_Inr)
  then obtain frame s1 where b: "build_onoff (ItemLight r) on s = (Inr frame, s1)"
    by (blast dest: send_recv_Inr)
  then have "heap s r \<noteq> None \<and> 0 \<le> on \<and> on < 256"
    by (auto simp: build_onoff_def item_build_command_def pack_uint_def
        split: sum.splits option.splits if_splits)
  moreover have "heap s' = heap s"
    using Luminary_set_onoff_same_objects[OF assms] by (simp add: same_objects_def)
  ultimately show ?thesis by simp
qed

lemma Luminary_set_luminance_ok:
  assumes "Luminary_set_luminance (ItemLight r) lum t s = Some (Inr u, s')"
  shows "heap s r \<noteq> None \<and> 0 \<le> lum \<and> lum < 256 \<and> heap s' = heap s"
proof -
  from assms obtain data where "send_recv (build_luminance (ItemLight r) lum t s) = Some (Inr data, s')"
    unfolding Luminary_set_luminance_def by (blast dest: discard_Inr)
  then obtain frame s1 where b: "build_luminance (ItemLight r) lum t s = (Inr frame, s1)"
    by (blast dest: send_recv_Inr)
  then have "heap s r \<noteq> None \<and> 0 \<le> lum \<and> lum < 256"
    by (auto simp: build_luminance_def item_build_command_def pack_uint_def
        split: sum.splits option.splits if_splits)
  moreover have "heap s' = heap s"
    using Luminary_set_luminance_same_objects[OF assms] by (simp add: same_objects_def)
  ultimately show ?thesis by simp
qed

text \<open>What a call of \<open>Light.set_onoff\<close> that returns leaves in the object.\<close>

lemma Light_set_onoff_ok:
  assumes "Light_set_onoff r on s = Some (Inr u, s')"
  shows "\<exists>l v. heap s r = Some l \<and> l_lum l = Some v \<and> 0 \<le> on \<and> on < 256 \<and>
           heap s' = (heap s)(r \<mapsto> l\<lparr>l_on := Some on, l_lum := Some (if v = 0 \<and> on \<noteq> 0 then 1 else v)\<rparr>)"
proof -
  let ?s1 = "upd_light r (\<lambda>l. l\<lparr>l_on := Some on\<rparr>) s"
  from assms obtain u' s2 where rt: "Luminary_set_onoff (ItemLight r) on ?s1 = Some (Inr u', s2)"
    unfolding Light_set_onoff_def by (auto split: option.splits prod.splits sum.splits)
  from Luminary_set_onoff_ok[OF rt]
  have ok: "heap ?s1 r \<noteq> None" "0 \<le> on" "on < 256" "heap s2 = heap ?s1" by simp_all
  from ok(1) obtain l where l: "heap s r = Some l"
    by (cases "heap s r") (simp_all add: upd_light_def)
  then have h1: "heap ?s1 = (heap s)(r \<mapsto> l\<lparr>l_on := Some on\<rparr>)" by (rule heap_upd_light)
  with ok(4) have h2: "heap s2 r = Some (l\<lparr>l_on := Some on\<rparr>)" by simp
  from assms rt h2 obtain v where v: "l_lum l = Some v"
    unfolding Light_set_onoff_def by (cases "l_lum l") (auto simp: attr_def)
  from assms rt h2 v have "s' = (if v = 0 \<and> on \<noteq> 0 then upd_light r (\<lambda>l. l\<lparr>l_lum := Some 1\<rparr>) s2 else s2)"
    unfolding Light_set_onoff_def by (auto simp: attr_def split: if_splits)
  with h2 h1 ok(4) v have "heap s' = (heap s)(r \<mapsto> l\<lparr>l_on := Some on, l_lum := Some (if v = 0 \<and> on \<noteq> 0 then 1 else v)\<rparr>)"
    by (auto simp: upd_light_def)
  with l v ok show ?thesis by blast
qed

text \<open>What a call of \<open>Light.set_luminance\<close> that returns leaves in the object.\<close>

lemma Light_set_luminance_ok:
  assumes "Light_set_luminance r lum t s = Some (Inr u, s')"
  shows "\<exists>l on. heap s r = Some l \<and> l_on l = Some on \<and> 0 \<le> lum \<and> lum < 256 \<and>
           heap s' = (heap s)(r \<mapsto> l\<lparr>l_lum := Some lum,
             l_on := Some (if lum > 0 then (if on = 0 then 1 else on) else 0)\<rparr>)"
proof -
  let ?s1 = "upd_light r (\<lambda>l. l\<lparr>l_lum := Some lum\<rparr>) s"
  from assms obtain u' s2 where rt: "Luminary_set_luminance (ItemLight r) lum t ?s1 = Some (Inr u', s2)"
    unfolding Light_set_luminance_def by (auto split: option.splits prod.splits sum.splits)
  from Luminary_set_luminance_ok[OF rt]
  have ok: "heap ?s1 r \<noteq> None" "0 \<le> lum" "lum < 256" "heap s2 = heap ?s1" by simp_all
  from ok(1) obtain l where l: "heap s r = Some l"
    by (cases "heap s r") (simp_all add: upd_light_def)
  then have h1: "heap ?s1 = (heap s)(r \<mapsto> l\<lparr>l_lum := Some lum\<rparr>)" by (rule heap_upd_light)
  with ok(4) have h2: "heap s2 r = Some (l\<lparr>l_lum := Some lum\<rparr>)" by simp
  from assms rt h2 ok(2) obtain on where on: "l_on l = Some on"
    unfolding Light_set_luminance_def by (cases "l_on l") (auto simp: attr_def split: if_splits)
  from assms rt h2 on ok(2)
  have "s' = (if lum > 0 then (if on = 0 then upd_light r (\<lambda>l. l\<lparr>l_on := Some 1\<rparr>) s2 else s2)
              else (if on \<noteq> 0 then upd_light r (\<lambda>l. l\<lparr>l_on := Some 0\<rparr>) s2 else s2))"
    unfolding Light_set_luminance_def by (auto simp: attr_def split: if_splits)
  with h2 h1 ok(4) on have "heap s' = (heap s)(r \<mapsto> l\<lparr>l_lum := Some lum,
             l_on := Some (if lum > 0 then (if on = 0 then 1 else on) else 0)\<rparr>)"
    by (auto simp: upd_light_def)
  with l on ok show ?thesis by blast
qed

subsection \<open>Numbers in bytes, and frames that arrive whole\<close>

lemma length_le_bytes [simp]: "length (le_bytes n v) = n"
  by (induction n arbitrary: v) auto

lemma from_le_le_bytes: "from_le (le_bytes n v) = v mod 256 ^ n"
proof (induction n arbitrary: v)
  case 0
  show ?case by simp
next
  case (Suc n)
  have "uint (word_of_int v :: byte) = v mod 256" by (simp add: uint_word_of_int)
  moreover have "v mod (256 * 256 ^ n) = 256 * (v div 256 mod 256 ^ n) + v mod 256"
    by (rule zmod_zmult2_eq) simp
  ultimately show ?case using Suc by simp
qed

lemma from_le_le_bytes_id: "0 \<le> v \<Longrightarrow> v < 256 ^ n \<Longrightarrow> from_le (le_bytes n v) = v"
  by (simp add: from_le_le_bytes)

lemma le_bytes_numeral:
  "le_bytes (numeral k) v = word_of_int v # le_bytes (pred_numeral k) (v div 256)"
  by (simp add: numeral_eq_Suc)

lemma recv_loop_done: "recv_loop 0 str d s = Some (Inr d, s)"
  by (subst recv_loop.simps) simp

lemma recv_loop_nonpos: "\<not> 0 < e \<Longrightarrow> recv_loop e str d s = Some (Inr d, s)"
  by (subst recv_loop.simps) simp

lemma recv_loop_pos:
  "0 < e \<Longrightarrow> recv_loop e str d s =
     (case sock_recv (nat e) (sock s) of
        (Inl er, sk) \<Rightarrow> Some (Inl er, s\<lparr>sock := sk\<rparr>)
      | (Inr d', sk) \<Rightarrow> recv_loop (e - int (length d')) (str @ d') d' (s\<lparr>sock := sk\<rparr>))"
  by (subst recv_loop.simps) simp

text \<open>A frame that arrives in one piece is returned without its length prefix.\<close>

lemma recv_whole_frame:
  assumes rx: "rx (sock s) = Chunk (wire_frame body) # rest"
    and ne: "body \<noteq> []" and len: "length body < 65536"
  shows "recv s = Some (Inr body, s\<lparr>sock := (sock s)\<lparr>rx := rest\<rparr>\<rparr>)"
proof -
  let ?pre = "le_bytes 2 (int (length body))"
  have r1: "sock_recv 2 (sock s) = (Inr ?pre, (sock s)\<lparr>rx := Chunk body # rest\<rparr>)"
    using rx ne by (simp add: wire_frame_def)
  have up: "unpack_uint 2 (slice 0 2 ?pre) = Inr (int (length body))"
    using len by (simp add: unpack_uint_def slice_def from_le_le_bytes_id)
  have r2: "sock_recv (length body) ((sock s)\<lparr>rx := Chunk body # rest\<rparr>) = (Inr body, (sock s)\<lparr>rx := rest\<rparr>)"
    by simp
  have "recv_loop (int (length body)) [] ?pre (s\<lparr>sock := (sock s)\<lparr>rx := Chunk body # rest\<rparr>\<rparr>)
        = Some (Inr body, s\<lparr>sock := (sock s)\<lparr>rx := rest\<rparr>\<rparr>)"
    using ne by (subst recv_loop.simps) (simp add: recv_loop_done del: sock_recv.simps add: r2)
  then show ?thesis
    unfolding recv_def by (simp add: r1 up del: sock_recv.simps)
qed

subsection \<open>Frames\<close>

text \<open>
  C4. The set-on-off frame for the light with address \<open>0x0123456789ABCDEF\<close>, on = 1,
  built when the counter stands at 4 so that the frame carries sequence number 5, is
  exactly: length 15 in two little-endian bytes, flag \<open>0x00\<close>, command \<open>0x32\<close>, two zero
  bytes, \<open>0x07\<close>, sequence \<open>0x05\<close>, the target \<open>EF CD AB 89 67 45 23 01\<close>, payload \<open>01\<close>.
\<close>

theorem build_onoff_frame:
  assumes "seq s = 4" and "heap s r = Some l" and "l_addr l = 0x0123456789ABCDEF"
  shows "fst (build_onoff (ItemLight r) 1 s) =
           Inr [0x0F, 0x00, 0x00, 0x32, 0x00, 0x00, 0x07, 0x05,
                0xEF, 0xCD, 0xAB, 0x89, 0x67, 0x45, 0x23, 0x01, 0x01]"
  using assms
  by (simp add: build_onoff_def item_build_command_def build_light_command_def
      build_basic_command_def next_seq_def pack_uint_def COMMAND_ONOFF_def le_bytes_numeral)

theorem build_onoff_frame_witness:
  "seq ((Lightify_init (plain_socket []))\<lparr>seq := 4, heap := [0 \<mapsto> Light_init 7 0x0123456789ABCDEF 2 []]\<rparr>) = 4 \<and>
   l_addr (Light_init 7 0x0123456789ABCDEF 2 []) = 0x0123456789ABCDEF \<and>
   fst (build_onoff (ItemLight 0) 1
         ((Lightify_init (plain_socket []))\<lparr>seq := 4, heap := [0 \<mapsto> Light_init 7 0x0123456789ABCDEF 2 []]\<rparr>)) =
     Inr [0x0F, 0x00, 0x00, 0x32, 0x00, 0x00, 0x07, 0x05,
          0xEF, 0xCD, 0xAB, 0x89, 0x67, 0x45, 0x23, 0x01, 0x01]"
  using build_onoff_frame [of "(Lightify_init (plain_socket []))\<lparr>seq := 4, heap := [0 \<mapsto> Light_init 7 0x0123456789ABCDEF 2 []]\<rparr>"
      0 "Light_init 7 0x0123456789ABCDEF 2 []"]
  by (simp add: Light_init_def Lightify_init_def)

subsection \<open>Receiving\<close>

text \<open>A body that arrives in two reads: \<open>recv\<close> returns the second read.\<close>

lemma recv_two_reads:
  assumes "rx (sock s) = Chunk (le_bytes 2 (int (length a + length b))) # Chunk a # Chunk b # rest"
    and "a \<noteq> []" and "b \<noteq> []" and "length a + length b < 65536"
  shows "recv s = Some (Inr b, s\<lparr>sock := (sock s)\<lparr>rx := rest\<rparr>\<rparr>)"
proof -
  have up: "unpack_uint 2 (slice 0 2 (le_bytes 2 (int (length a + length b)))) =
              Inr (int (length a + length b))"
    using assms(4) by (simp add: unpack_uint_def slice_def from_le_le_bytes_id)
  let ?pre = "le_bytes 2 (int (length a + length b))"
  from assms(2) obtain ka where la: "length a = Suc ka" by (cases a) auto
  from assms(3) obtain kb where lb: "length b = Suc kb" by (cases b) auto
  have na: "length a \<le> nat (int (length a + length b))" by simp
  have 1: "recv_loop (int (length a + length b)) [] ?pre
             (s\<lparr>sock := (sock s)\<lparr>rx := Chunk a # Chunk b # rest\<rparr>\<rparr>) =
           recv_loop (int (length b)) a a (s\<lparr>sock := (sock s)\<lparr>rx := Chunk b # rest\<rparr>\<rparr>)"
    by (subst recv_loop_pos) (use la na in auto)
  have 2: "recv_loop (int (length b)) a a (s\<lparr>sock := (sock s)\<lparr>rx := Chunk b # rest\<rparr>\<rparr>) =
           recv_loop 0 (a @ b) b (s\<lparr>sock := (sock s)\<lparr>rx := rest\<rparr>\<rparr>)"
    by (subst recv_loop_pos) (use lb in auto)
  have "recv_loop (int (length a + length b)) [] ?pre
          (s\<lparr>sock := (sock s)\<lparr>rx := Chunk a # Chunk b # rest\<rparr>\<rparr>) =
        Some (Inr b, s\<lparr>sock := (sock s)\<lparr>rx := rest\<rparr>\<rparr>)"
    by (simp only: 1 2 recv_loop_done)
  then show ?thesis
    unfolding recv_def using assms(1) by (simp add: up del: of_nat_add)
qed

text \<open>
  C2. \<open>recv\<close> returns the bytes of its last read. A body of four bytes that arrives
  in two reads comes back as its last two bytes; the same body in one read comes back
  whole.
\<close>

theorem recv_returns_last_read:
  "map_option fst (recv (Lightify_init (plain_socket [Chunk [4, 0], Chunk [1, 2], Chunk [3, 4]]))) =
     Some (Inr [3, 4]) \<and>
   map_option fst (recv (Lightify_init (plain_socket [Chunk [4, 0], Chunk [1, 2, 3, 4]]))) =
     Some (Inr [1, 2, 3, 4])"
  by (simp add: recv_def Lightify_init_def plain_socket_def unpack_uint_def slice_def
      recv_loop_pos recv_loop_nonpos)

subsection \<open>The rendering of the address\<close>

text \<open>
  C9. \<open>mac\<close> does not pad: \<open>format(addr, 'x')\<close> of the address \<open>0x0123456789ABCDEF\<close> has
  15 digits, and the eighth group is the single digit \<open>f\<close>; for the address 0 seven
  groups are empty.
\<close>

theorem mac_not_padded:
  "mac (Light_init 1 0x0123456789ABCDEF 2 []) = ''12-34-56-78-9a-bc-de-f'' \<and>
   mac (Light_init 1 0 2 []) = ''0-------''"
  by (simp add: mac_def format_x_def hex_nat.simps hex_digit_def slice_def Light_init_def)

subsection \<open>The local mutators of a light\<close>

lemma run_calls_snoc:
  "run_calls r (cs @ [c]) s = Some (Inr u, s') \<Longrightarrow>
     \<exists>s1. run_calls r cs s = Some (Inr (), s1) \<and> run_call r c s1 = Some (Inr (), s')"
  by (induction cs arbitrary: s) (auto split: option.splits prod.splits sum.splits)

lemma outcome_state: "map_option fst x = Some a \<Longrightarrow> \<exists>s'. x = Some (a, s')"
  by (cases x) auto

text \<open>The definitions that a run on a concrete session unfolds.\<close>

lemmas run_defs =
  run_call_def Light_set_onoff_def Light_set_luminance_def Light_set_temperature_def
  Light_set_rgb_def Luminary_set_onoff_def Luminary_set_luminance_def
  Luminary_set_temperature_def Luminary_set_rgb_def discard_def send_recv_def
  build_onoff_def build_luminance_def build_temp_def build_colour_def
  item_build_command_def build_light_command_def build_basic_command_def next_seq_def
  pack_uint_def send_def recv_def recv_loop_pos recv_loop_nonpos unpack_uint_def slice_def
  upd_light_def attr_def le_bytes_numeral
  COMMAND_ONOFF_def COMMAND_LUMINANCE_def COMMAND_TEMP_def COMMAND_COLOUR_def

lemmas example_defs =
  one_light_def Lightify_init_def plain_socket_def ack_def wire_frame_def test_entry_def
  light_of_def

text \<open>
  C7. After \<open>set_luminance(0)\<close> and then \<open>set_onoff(1)\<close>, both returning, the light has
  luminance 1 and is on; \<open>set_luminance(50)\<close> that returns on a light that is off
  leaves the light on.
\<close>

theorem luminance_zero_then_on:
  "(run_calls r [SetLuminance 0 t, SetOnOff 1] s = Some (Inr (), s') \<longrightarrow>
      attr l_lum r s' = Some 1 \<and> attr l_on r s' = Some 1) \<and>
   (attr l_on r s = Some 0 \<and> Light_set_luminance r 50 t s = Some (Inr (), s') \<longrightarrow>
      attr l_on r s' = Some 1)"
proof (intro conjI impI)
  assume run: "run_calls r [SetLuminance 0 t, SetOnOff 1] s = Some (Inr (), s')"
  then obtain s1 where a: "Light_set_luminance r 0 t s = Some (Inr (), s1)"
    and b: "Light_set_onoff r 1 s1 = Some (Inr (), s')"
    by (auto simp: run_call_def split: option.splits prod.splits sum.splits)
  from Light_set_luminance_ok[OF a] have "attr l_lum r s1 = Some 0"
    by (auto simp: attr_def)
  with Light_set_onoff_ok[OF b]
  show "attr l_lum r s' = Some 1" and "attr l_on r s' = Some 1"
    by (auto simp: attr_def)
next
  assume "attr l_on r s = Some 0 \<and> Light_set_luminance r 50 t s = Some (Inr (), s')"
  then have off: "attr l_on r s = Some 0" and a: "Light_set_luminance r 50 t s = Some (Inr (), s')"
    by simp_all
  from Light_set_luminance_ok[OF a] off show "attr l_on r s' = Some 1"
    by (auto simp: attr_def)
qed

lemma example_run_returns:
  "map_option fst (run_calls 0 [SetLuminance 0 0, SetOnOff 1] (one_light (plain_socket [ack, ack]))) =
     Some (Inr ())"
  by (simp add: run_defs example_defs)

lemma example_luminance_returns:
  "map_option fst (Light_set_luminance 0 50 0
      (snd (the (Light_set_onoff 0 0 (one_light (plain_socket [ack, ack]))))))  = Some (Inr ())
   \<and> attr l_on 0 (snd (the (Light_set_onoff 0 0 (one_light (plain_socket [ack, ack]))))) = Some 0"
  by (simp add: run_defs example_defs)

theorem luminance_zero_then_on_witness:
  "(\<exists>s'. run_calls 0 [SetLuminance 0 0, SetOnOff 1] (one_light (plain_socket [ack, ack])) =
            Some (Inr (), s') \<and>
          attr l_lum 0 s' = Some 1 \<and> attr l_on 0 s' = Some 1) \<and>
   (\<exists>s s'. attr l_on 0 s = Some 0 \<and> Light_set_luminance 0 50 0 s = Some (Inr (), s') \<and>
          attr l_on 0 s' = Some 1)"
proof -
  obtain s1 where s1: "run_calls 0 [SetLuminance 0 0, SetOnOff 1] (one_light (plain_socket [ack, ack])) =
            Some (Inr (), s1)"
    using outcome_state [OF example_run_returns] by blast
  let ?s = "snd (the (Light_set_onoff 0 0 (one_light (plain_socket [ack, ack]))))"
  have off: "attr l_on 0 ?s = Some 0" using example_luminance_returns by simp
  obtain s2 where s2: "Light_set_luminance 0 50 0 ?s = Some (Inr (), s2)"
    using outcome_state [OF conjunct1 [OF example_luminance_returns]] by blast
  from luminance_zero_then_on [of 0 0 "one_light (plain_socket [ack, ack])" s1] s1
  have "attr l_lum 0 s1 = Some 1 \<and> attr l_on 0 s1 = Some 1" by simp
  moreover from luminance_zero_then_on [of 0 0 ?s s2] off s2
  have "attr l_on 0 s2 = Some 1" by simp
  ultimately show ?thesis using s1 s2 off by blast
qed

text \<open>
  C6 as amended. After a sequence of \<open>set_onoff\<close> and \<open>set_luminance\<close> calls that all
  return, luminance 0 means off. The converse holds unless the last call turned the
  light off: \<open>set_onoff(0)\<close> keeps the luminance.
\<close>

theorem luminance_zero_means_off:
  assumes "cs \<noteq> []" and "run_calls r cs s = Some (Inr (), s')"
  shows "\<exists>on lum. attr l_on r s' = Some on \<and> attr l_lum r s' = Some lum \<and>
           (lum = 0 \<longrightarrow> on = 0) \<and> (last cs \<noteq> SetOnOff 0 \<longrightarrow> on = 0 \<longrightarrow> lum = 0)"
proof -
  from assms(1) obtain bs c where cs: "cs = bs @ [c]"
    by (metis append_butlast_last_id)
  with assms(2) obtain s1 where c: "run_call r c s1 = Some (Inr (), s')"
    by (blast dest: run_calls_snoc)
  show ?thesis
  proof (cases c)
    case (SetOnOff on)
    with c have "Light_set_onoff r on s1 = Some (Inr (), s')" by (simp add: run_call_def)
    from Light_set_onoff_ok[OF this] cs SetOnOff show ?thesis
      by (auto simp: attr_def)
  next
    case (SetLuminance lum t)
    with c have "Light_set_luminance r lum t s1 = Some (Inr (), s')" by (simp add: run_call_def)
    from Light_set_luminance_ok[OF this] cs SetLuminance show ?thesis
      by (auto simp: attr_def)
  qed
qed

theorem luminance_zero_means_off_witness:
  "\<exists>s'. [SetLuminance 0 0, SetOnOff 1] \<noteq> [] \<and>
        run_calls 0 [SetLuminance 0 0, SetOnOff 1] (one_light (plain_socket [ack, ack])) =
          Some (Inr (), s') \<and>
        (\<exists>on lum. attr l_on 0 s' = Some on \<and> attr l_lum 0 s' = Some lum \<and>
           (lum = 0 \<longrightarrow> on = 0) \<and> (on = 0 \<longrightarrow> lum = 0))"
proof -
  obtain s' where s': "run_calls 0 [SetLuminance 0 0, SetOnOff 1] (one_light (plain_socket [ack, ack])) =
            Some (Inr (), s')"
    using outcome_state [OF example_run_returns] by blast
  from luminance_zero_means_off [OF _ s'] s' show ?thesis by auto
qed

text \<open>
  The claim as stated fails: the light of the example is on with luminance 128;
  \<open>set_onoff(0)\<close> returns and leaves it off with luminance 128.
\<close>

theorem turning_off_keeps_luminance:
  "map_option fst (run_calls 0 [SetOnOff 0] (one_light (plain_socket [ack]))) = Some (Inr ()) \<and>
   attr l_on 0 (snd (the (run_calls 0 [SetOnOff 0] (one_light (plain_socket [ack]))))) = Some 0 \<and>
   attr l_lum 0 (snd (the (run_calls 0 [SetOnOff 0] (one_light (plain_socket [ack]))))) = Some 128"
  by (simp add: run_defs example_defs)

lemma Light_set_onoff_raises:
  assumes "Light_set_onoff r on s = Some (Inl e, s')"
  shows "heap s' = heap (upd_light r (\<lambda>l. l\<lparr>l_on := Some on\<rparr>) s)"
proof -
  let ?s1 = "upd_light r (\<lambda>l. l\<lparr>l_on := Some on\<rparr>) s"
  from assms obtain y where y: "Luminary_set_onoff (ItemLight r) on ?s1 = Some y" and "snd y = s'"
    unfolding Light_set_onoff_def
    by (auto split: option.splits prod.splits sum.splits if_splits)
  with Luminary_set_onoff_same_objects[OF y] show ?thesis by (simp add: same_objects_def)
qed

lemma Light_set_luminance_raises:
  assumes "Light_set_luminance r lum t s = Some (Inl e, s')"
  shows "heap s' = heap (upd_light r (\<lambda>l. l\<lparr>l_lum := Some lum\<rparr>) s)"
proof -
  let ?s1 = "upd_light r (\<lambda>l. l\<lparr>l_lum := Some lum\<rparr>) s"
  from assms obtain y where y: "Luminary_set_luminance (ItemLight r) lum t ?s1 = Some y" and "snd y = s'"
    unfolding Light_set_luminance_def
    by (auto split: option.splits prod.splits sum.splits if_splits)
  with Luminary_set_luminance_same_objects[OF y] show ?thesis by (simp add: same_objects_def)
qed

text \<open>
  C10. Each mutator of \<open>Light\<close> assigns the requested value before the wire round
  trip: when the call raises, whatever raised, the object holds the requested value
  and is otherwise as before.
\<close>

theorem mutators_assign_before_round_trip:
  assumes "heap s r = Some l"
  shows "(Light_set_onoff r on s = Some (Inl e, s') \<longrightarrow> heap s' r = Some (l\<lparr>l_on := Some on\<rparr>)) \<and>
         (Light_set_luminance r lum time s = Some (Inl e, s') \<longrightarrow>
            heap s' r = Some (l\<lparr>l_lum := Some lum\<rparr>)) \<and>
         (Light_set_temperature r temp time s = Some (Inl e, s') \<longrightarrow>
            heap s' r = Some (l\<lparr>l_temp := Some temp\<rparr>)) \<and>
         (Light_set_rgb r red green blue time s = Some (Inl e, s') \<longrightarrow>
            heap s' r = Some (l\<lparr>l_r := Some red, l_g := Some green, l_b := Some blue\<rparr>))"
proof (intro conjI impI)
  assume "Light_set_onoff r on s = Some (Inl e, s')"
  from Light_set_onoff_raises[OF this] assms
  show "heap s' r = Some (l\<lparr>l_on := Some on\<rparr>)" by (simp add: upd_light_def)
next
  assume "Light_set_luminance r lum time s = Some (Inl e, s')"
  from Light_set_luminance_raises[OF this] assms
  show "heap s' r = Some (l\<lparr>l_lum := Some lum\<rparr>)" by (simp add: upd_light_def)
next
  assume "Light_set_temperature r temp time s = Some (Inl e, s')"
  from Luminary_set_temperature_same_objects[OF this[unfolded Light_set_temperature_def]] assms
  show "heap s' r = Some (l\<lparr>l_temp := Some temp\<rparr>)"
    by (simp add: upd_light_def same_objects_def)
next
  assume "Light_set_rgb r red green blue time s = Some (Inl e, s')"
  from Luminary_set_rgb_same_objects[OF this[unfolded Light_set_rgb_def]] assms
  show "heap s' r = Some (l\<lparr>l_r := Some red, l_g := Some green, l_b := Some blue\<rparr>)"
    by (simp add: upd_light_def same_objects_def)
qed

text \<open>The socket of the witness: the first \<open>sendall\<close> raises.\<close>

lemma example_send_raises:
  "map_option fst (Light_set_onoff 0 0 (one_light \<lparr>rx = [], tx_errors = [True], tx = []\<rparr>)) =
     Some (Inl SocketError)"
  "map_option fst (Light_set_luminance 0 7 0 (one_light \<lparr>rx = [], tx_errors = [True], tx = []\<rparr>)) =
     Some (Inl SocketError)"
  "map_option fst (Light_set_temperature 0 3000 0 (one_light \<lparr>rx = [], tx_errors = [True], tx = []\<rparr>)) =
     Some (Inl SocketError)"
  "map_option fst (Light_set_rgb 0 1 2 3 0 (one_light \<lparr>rx = [], tx_errors = [True], tx = []\<rparr>)) =
     Some (Inl SocketError)"
  by (simp_all add: run_defs example_defs)

theorem mutators_assign_before_round_trip_witness:
  "heap (one_light \<lparr>rx = [], tx_errors = [True], tx = []\<rparr>) 0 = Some (light_of test_entry) \<and>
   (\<exists>s'. Light_set_onoff 0 0 (one_light \<lparr>rx = [], tx_errors = [True], tx = []\<rparr>) =
            Some (Inl SocketError, s') \<and>
          heap s' 0 = Some ((light_of test_entry)\<lparr>l_on := Some 0\<rparr>)) \<and>
   (\<exists>s'. Light_set_luminance 0 7 0 (one_light \<lparr>rx = [], tx_errors = [True], tx = []\<rparr>) =
            Some (Inl SocketError, s') \<and>
          heap s' 0 = Some ((light_of test_entry)\<lparr>l_lum := Some 7\<rparr>)) \<and>
   (\<exists>s'. Light_set_temperature 0 3000 0 (one_light \<lparr>rx = [], tx_errors = [True], tx = []\<rparr>) =
            Some (Inl SocketError, s') \<and>
          heap s' 0 = Some ((light_of test_entry)\<lparr>l_temp := Some 3000\<rparr>)) \<and>
   (\<exists>s'. Light_set_rgb 0 1 2 3 0 (one_light \<lparr>rx = [], tx_errors = [True], tx = []\<rparr>) =
            Some (Inl SocketError, s') \<and>
          heap s' 0 = Some ((light_of test_entry)\<lparr>l_r := Some 1, l_g := Some 2, l_b := Some 3\<rparr>))"
proof -
  let ?s = "one_light \<lparr>rx = [], tx_errors = [True], tx = []\<rparr>"
  have h: "heap ?s 0 = Some (light_of test_entry)" by (simp add: one_light_def)
  obtain s1 where s1: "Light_set_onoff 0 0 ?s = Some (Inl SocketError, s1)"
    using outcome_state [OF example_send_raises(1)] by blast
  obtain s2 where s2: "Light_set_luminance 0 7 0 ?s = Some (Inl SocketError, s2)"
    using outcome_state [OF example_send_raises(2)] by blast
  obtain s3 where s3: "Light_set_temperature 0 3000 0 ?s = Some (Inl SocketError, s3)"
    using outcome_state [OF example_send_raises(3)] by blast
  obtain s4 where s4: "Light_set_rgb 0 1 2 3 0 ?s = Some (Inl SocketError, s4)"
    using outcome_state [OF example_send_raises(4)] by blast
  from mutators_assign_before_round_trip [OF h, where on = 0 and e = SocketError and s' = s1] s1
  have 1: "heap s1 0 = Some ((light_of test_entry)\<lparr>l_on := Some 0\<rparr>)" by blast
  from mutators_assign_before_round_trip [OF h, where lum = 7 and time = 0 and e = SocketError and s' = s2] s2
  have 2: "heap s2 0 = Some ((light_of test_entry)\<lparr>l_lum := Some 7\<rparr>)" by blast
  from mutators_assign_before_round_trip [OF h, where temp = 3000 and time = 0 and e = SocketError and s' = s3] s3
  have 3: "heap s3 0 = Some ((light_of test_entry)\<lparr>l_temp := Some 3000\<rparr>)" by blast
  from mutators_assign_before_round_trip [OF h, where red = 1 and green = 2 and blue = 3 and time = 0 and e = SocketError and s' = s4] s4
  have 4: "heap s4 0 = Some ((light_of test_entry)\<lparr>l_r := Some 1, l_g := Some 2, l_b := Some 3\<rparr>)"
    by blast
  from h s1 s2 s3 s4 1 2 3 4 show ?thesis by blast
qed

subsection \<open>Sequence numbers\<close>

lemma pack_uint_error: "pack_uint n v = Inl e \<Longrightarrow> e = StructError"
  by (simp add: pack_uint_def split: if_splits)

lemma pack_fields_error: "pack_fields fs = Inl e \<Longrightarrow> e = StructError"
proof (induction fs arbitrary: e rule: pack_fields.induct)
  case 1
  then show ?case by simp
next
  case (2 n v fs)
  show ?case
  proof (cases "pack_uint n v")
    case (Inl e')
    with 2(2) show ?thesis by (simp add: pack_uint_error)
  next
    case (Inr bs)
    with 2 show ?thesis by (cases "pack_fields fs") simp_all
  qed
qed

lemma pack_fields_out_of_range:
  "(n, v) \<in> set fs \<Longrightarrow> \<not> (0 \<le> v \<and> v < 256 ^ n) \<Longrightarrow> pack_fields fs = Inl StructError"
proof (induction fs rule: pack_fields.induct)
  case 1
  then show ?case by simp
next
  case (2 m w fs)
  show ?case
  proof (cases "pack_fields ((m, w) # fs)")
    case (Inl e)
    with pack_fields_error [OF Inl] show ?thesis by (simp del: pack_fields.simps)
  next
    case (Inr bs)
    with 2 show ?thesis
      by (auto simp: pack_uint_def split: sum.splits if_splits)
  qed
qed

lemma seq_issue: "seq (snd (issue c s)) = seq s + 1"
  by (cases c)
     (simp_all add: issue_def build_global_command_def build_basic_command_def next_seq_def
        split: sum.splits)

lemma seq_issue_all: "seq (issue_all cs s) = seq s + int (length cs)"
  by (induction cs arbitrary: s) (simp_all add: seq_issue)

text \<open>A frame carries the counter, moved on by one, as long as it fits a byte.\<close>

lemma issue_frame:
  assumes "packable c" and "0 \<le> seq s" and "seq s < 255"
  shows "\<exists>frame. fst (issue c s) = Inr frame \<and> uint (frame ! 7) = seq s + 1"
proof -
  have u: "uint (word_of_int (seq s + 1) :: byte) = seq s + 1"
    using assms(2,3) by (simp only: uint_word_of_int) simp
  have hdr: "\<And>len flag cmd. 0 \<le> len \<Longrightarrow> len < 65536 \<Longrightarrow> 0 \<le> flag \<Longrightarrow> flag < 256 \<Longrightarrow>
      0 \<le> cmd \<Longrightarrow> cmd < 256 \<Longrightarrow>
      pack_fields [(2, len), (1, flag), (1, cmd), (1, 0), (1, 0), (1, 0x7), (1, seq s + 1)] =
        Inr [word_of_int len, word_of_int (len div 256), word_of_int flag, word_of_int cmd,
             0, 0, 7, word_of_int (seq s + 1)]"
    using assms(2,3) by (simp add: pack_uint_def le_bytes_numeral del: of_int_add)
  show ?thesis
  proof (cases c)
    case (Global cmd data)
    with assms(1) have "0 \<le> cmd" "cmd < 256" "6 + int (length data) < 65536"
      by (simp_all add: packable_def)
    with hdr [of "6 + int (length data)" 2 cmd] Global u show ?thesis
      by (simp add: issue_def build_global_command_def next_seq_def del: pack_fields.simps of_int_add)
  next
    case (Basic flag cmd target data)
    with assms(1) have "0 \<le> flag" "flag < 256" "0 \<le> cmd" "cmd < 256"
        "14 + int (length data) < 65536"
      by (simp_all add: packable_def)
    with hdr [of "14 + int (length data)" flag cmd] Basic u show ?thesis
      by (simp add: issue_def build_basic_command_def next_seq_def del: pack_fields.simps of_int_add)
  qed
qed

text \<open>The counter is never reduced: once it has passed 255 no frame is built any more.\<close>

lemma issue_overflow:
  assumes "255 \<le> seq s"
  shows "fst (issue c s) = Inl StructError"
proof -
  have "\<And>fs. pack_fields (fs @ [(1, seq s + 1)]) = Inl StructError"
    using assms by (intro pack_fields_out_of_range [where n = 1 and v = "seq s + 1"]) simp_all
  from this [of "[_, _, _, _, _, _]"] show ?thesis
    by (cases c)
       (simp_all add: issue_def build_global_command_def build_basic_command_def next_seq_def
          del: pack_fields.simps)
qed

text \<open>
  C3 as amended. In a session that starts with the counter at 1, the command that
  follows \<open>n\<close> earlier ones, with \<open>n < 254\<close>, gets a frame whose sequence byte is
  \<open>n + 2\<close>: the first command carries 2, each next one carries one more, up to 255.
\<close>

theorem sequence_numbers_count_up:
  assumes "seq s = 1" and "length cs < 254" and "packable c"
  shows "\<exists>frame. fst (issue c (issue_all cs s)) = Inr frame \<and>
           uint (frame ! 7) = 2 + int (length cs)"
proof -
  have "seq (issue_all cs s) = 1 + int (length cs)"
    using assms(1) by (simp add: seq_issue_all)
  with issue_frame [OF assms(3), of "issue_all cs s"] assms(2) show ?thesis
    by auto
qed

theorem sequence_numbers_count_up_witness:
  "seq (Lightify_init (plain_socket [])) = 1 \<and> length [Global 0x1e []] < 254 \<and>
   packable (Basic 0 0x32 (le_bytes 8 0x0123456789ABCDEF) [1]) \<and>
   (\<exists>frame. fst (issue (Basic 0 0x32 (le_bytes 8 0x0123456789ABCDEF) [1])
                 (issue_all [Global 0x1e []] (Lightify_init (plain_socket [])))) = Inr frame \<and>
            uint (frame ! 7) = 3)"
proof -
  have a: "seq (Lightify_init (plain_socket [])) = 1" by (simp add: Lightify_init_def)
  have b: "length [Global 0x1e []] < 254" by simp
  have c: "packable (Basic 0 0x32 (le_bytes 8 0x0123456789ABCDEF) [1])"
    by (simp add: packable_def)
  from sequence_numbers_count_up [OF a b c] a b c show ?thesis by simp
qed

text \<open>
  The claim as stated fails at the 255th command: the counter is 256, which
  \<open>struct.pack\<close> refuses, where the claim has a frame with sequence number 0.
\<close>

theorem sequence_number_does_not_wrap:
  "fst (issue (Global 0x1e [])
         (issue_all (replicate 254 (Global 0x1e [])) (Lightify_init (plain_socket [])))) =
     Inl StructError"
proof -
  have "seq (issue_all (replicate 254 (Global 0x1e [])) (Lightify_init (plain_socket []))) = 255"
    by (simp add: seq_issue_all Lightify_init_def)
  then show ?thesis by (simp add: issue_overflow)
qed

subsection \<open>The target of a group command\<close>

lemma pack_header:
  assumes "0 \<le> len" "len < 65536" "0 \<le> flag" "flag < 256" "0 \<le> cmd" "cmd < 256"
    "0 \<le> sq" "sq < 256"
  shows "pack_fields [(2, len), (1, flag), (1, cmd), (1, 0), (1, 0), (1, 0x7), (1, sq)] =
           Inr [word_of_int len, word_of_int (len div 256), word_of_int flag, word_of_int cmd,
                0, 0, 7, word_of_int sq]"
  using assms by (simp add: pack_uint_def le_bytes_numeral)

lemma pack_group_index:
  assumes "0 \<le> idx" "idx \<le> 255"
  shows "pack_fields [(1, idx), (1, 0), (1, 0), (1, 0), (1, 0), (1, 0), (1, 0), (1, 0)] =
           Inr [word_of_int idx, 0, 0, 0, 0, 0, 0, 0]"
  using assms by (simp add: pack_uint_def le_bytes_numeral)

lemma le_bytes_8_small:
  assumes "0 \<le> idx" "idx \<le> 255"
  shows "le_bytes 8 idx = [word_of_int idx, 0, 0, 0, 0, 0, 0, 0]"
proof -
  have "idx div 256 = 0" using assms by simp
  then show ?thesis by (simp add: le_bytes_numeral)
qed

text \<open>
  C5 as amended. For a group whose index fits one byte, \<open>build_command\<close> builds a
  frame (given a command code, a counter and a payload that can be packed), and the
  eight bytes of its target are the index as a little-endian integer: the index byte
  and seven zero bytes.
\<close>

theorem group_target_selector:
  assumes "0 \<le> g_idx grp" and "g_idx grp \<le> 255" and "0 \<le> command" and "command < 256"
    and "0 \<le> seq s" and "seq s < 255" and "14 + length data < 65536"
  shows "\<exists>frame. fst (build_command command grp data s) = Inr frame \<and>
           slice 8 16 frame = le_bytes 8 (g_idx grp) \<and>
           slice 8 16 frame = [word_of_int (g_idx grp), 0, 0, 0, 0, 0, 0, 0]"
proof -
  let ?target = "[word_of_int (g_idx grp), 0, 0, 0, 0, 0, 0, 0] :: bytes"
  let ?len = "14 + int (length data)"
  let ?hdr = "[word_of_int ?len, word_of_int (?len div 256), 2, word_of_int command,
               0, 0, 7, word_of_int (seq s + 1)] :: bytes"
  have h: "pack_fields [(2, ?len), (1, 0x02), (1, command), (1, 0), (1, 0), (1, 0x7), (1, seq s + 1)] =
             Inr ?hdr"
    using pack_header [of ?len 2 command "seq s + 1"] assms by simp
  have "build_command command grp data s = (Inr (?hdr @ ?target @ data), s\<lparr>seq := seq s + 1\<rparr>)"
    unfolding build_command_def build_basic_command_def next_seq_def
    by (simp only: pack_group_index [OF assms(1,2)] h Let_def sum.case prod.case)
  moreover have "slice 8 16 (?hdr @ ?target @ data) = ?target"
    by (simp add: slice_def)
  ultimately show ?thesis
    using le_bytes_8_small [OF assms(1,2)] by simp
qed

theorem group_target_selector_witness:
  "(0::int) \<le> 3 \<and>
   (\<exists>frame. fst (build_command COMMAND_ONOFF (Group_init 3 []) [1] (Lightify_init (plain_socket []))) =
             Inr frame \<and>
           slice 8 16 frame = [3, 0, 0, 0, 0, 0, 0, 0])"
proof -
  have "\<exists>frame. fst (build_command COMMAND_ONOFF (Group_init 3 []) [1] (Lightify_init (plain_socket []))) =
             Inr frame \<and>
           slice 8 16 frame = le_bytes 8 (g_idx (Group_init 3 [])) \<and>
           slice 8 16 frame = [word_of_int (g_idx (Group_init 3 [])), 0, 0, 0, 0, 0, 0, 0]"
    by (rule group_target_selector)
       (simp_all add: Group_init_def COMMAND_ONOFF_def Lightify_init_def)
  then show ?thesis by (auto simp: Group_init_def)
qed

text \<open>
  The claim as stated fails for the 16-bit index 256: the index is packed as one
  byte, \<open>struct.pack\<close> raises and no frame is built.
\<close>

theorem group_index_is_one_byte:
  "fst (build_command COMMAND_ONOFF (Group_init 256 []) [1] (Lightify_init (plain_socket []))) =
     Inl StructError"
  by (simp add: build_command_def Group_init_def pack_uint_def)

subsection \<open>Decoding one entry\<close>

lemma decode_layout:
  assumes "length a = 2" "length b = 8" "length c = 1" "length d = 4" "length e = 1"
    "length f = 2" "length g = 1" "length h = 1" "length i = 2" "length red = 1"
    "length green = 1" "length blue = 1" "length al = 1" "length nm = 16" "length u = 8"
  shows "decode_entry (a @ b @ c @ d @ e @ f @ g @ h @ i @ red @ green @ blue @ al @ nm @ u) =
    Inr \<lparr>e_id = from_le a, e_mac = from_le b, e_type = from_le c, e_fwVersion = from_be d,
         e_online = from_le e, e_groupId = from_le f, e_status = from_le g,
         e_brightness = from_le h, e_temp = from_le i, e_red = from_le red,
         e_green = from_le green, e_blue = from_le blue, e_alpha = from_le al,
         e_name = strip_nul nm, e_unknown = from_le u\<rparr>"
  using assms
  by (simp add: decode_entry_def bind_err_def slice_def unpack_uint_def unpack_be32_def
      unpack_BH_def unpack_BBBB_def)

lemma strip_nul_padded: "0 \<notin> set name \<Longrightarrow> strip_nul (name @ replicate k 0) = name"
  by (induction name) (auto simp: strip_nul_def)

lemma from_le_in_range: "in_range n v \<Longrightarrow> from_le (le_bytes n v) = v"
  by (simp add: in_range_def from_le_le_bytes_id)

lemma length_encode_entry: "length (e_name e) \<le> 16 \<Longrightarrow> length (encode_entry e) = 50"
  by (simp add: encode_entry_def)

text \<open>Decoding, as the code does it, inverts the layout of the specification.\<close>

lemma decode_encode_entry:
  assumes "wf_entry e"
  shows "decode_entry (encode_entry e) = Inr e"
proof -
  from assms have n: "length (e_name e @ replicate (16 - length (e_name e)) 0) = 16"
    and z: "0 \<notin> set (e_name e)"
    by (simp_all add: wf_entry_def)
  from assms have r: "in_range 2 (e_id e)" "in_range 8 (e_mac e)" "in_range 1 (e_type e)"
    "in_range 4 (e_fwVersion e)" "in_range 1 (e_online e)" "in_range 2 (e_groupId e)"
    "in_range 1 (e_status e)" "in_range 1 (e_brightness e)" "in_range 2 (e_temp e)"
    "in_range 1 (e_red e)" "in_range 1 (e_green e)" "in_range 1 (e_blue e)"
    "in_range 1 (e_alpha e)" "in_range 8 (e_unknown e)"
    by (simp_all add: wf_entry_def)
  have "decode_entry (encode_entry e) =
    Inr \<lparr>e_id = from_le (le_bytes 2 (e_id e)), e_mac = from_le (le_bytes 8 (e_mac e)),
         e_type = from_le (le_bytes 1 (e_type e)),
         e_fwVersion = from_be (rev (le_bytes 4 (e_fwVersion e))),
         e_online = from_le (le_bytes 1 (e_online e)),
         e_groupId = from_le (le_bytes 2 (e_groupId e)),
         e_status = from_le (le_bytes 1 (e_status e)),
         e_brightness = from_le (le_bytes 1 (e_brightness e)),
         e_temp = from_le (le_bytes 2 (e_temp e)), e_red = from_le (le_bytes 1 (e_red e)),
         e_green = from_le (le_bytes 1 (e_green e)), e_blue = from_le (le_bytes 1 (e_blue e)),
         e_alpha = from_le (le_bytes 1 (e_alpha e)),
         e_name = strip_nul (e_name e @ replicate (16 - length (e_name e)) 0),
         e_unknown = from_le (le_bytes 8 (e_unknown e))\<rparr>"
    unfolding encode_entry_def by (rule decode_layout) (simp_all only: n length_le_bytes length_rev)
  also have "\<dots> =
    Inr \<lparr>e_id = e_id e, e_mac = e_mac e, e_type = e_type e, e_fwVersion = e_fwVersion e,
         e_online = e_online e, e_groupId = e_groupId e, e_status = e_status e,
         e_brightness = e_brightness e, e_temp = e_temp e, e_red = e_red e,
         e_green = e_green e, e_blue = e_blue e, e_alpha = e_alpha e,
         e_name = e_name e, e_unknown = e_unknown e\<rparr>"
    by (simp only: r from_le_in_range from_be_def rev_rev_ident strip_nul_padded [OF z])
  also have "\<dots> = Inr e" by simp
  finally show ?thesis .
qed

subsection \<open>The loop over the entries\<close>

lemma take_drop_concat_nth:
  "\<forall>x\<in>set xs. length x = k \<Longrightarrow> i < length xs \<Longrightarrow> take k (drop (i * k) (concat xs)) = xs ! i"
proof (induction xs arbitrary: i)
  case Nil
  then show ?case by simp
next
  case (Cons x xs)
  show ?case
  proof (cases i)
    case 0
    with Cons.prems show ?thesis by simp
  next
    case (Suc j)
    with Cons.prems have "j < length xs" and "length x = k" and "\<forall>y\<in>set xs. length y = k"
      by simp_all
    with Cons.IH [of j] Suc show ?thesis by simp
  qed
qed

lemma slice_concat_nth:
  assumes "\<forall>x\<in>set xs. length x = k" and "i < length xs" and "length pre = p"
  shows "slice (p + i * k) (p + i * k + k) (pre @ concat xs) = xs ! i"
  using take_drop_concat_nth [OF assms(1,2)] assms(3) by (simp add: slice_def)

text \<open>When every entry decodes, the loop folds \<open>merge_entry\<close> over the decoded entries.\<close>

lemma status_loop_decoded:
  "\<forall>i\<in>set is. decode_entry (slice (9 + i * 50) (9 + i * 50 + 50) data) = Inr (f i) \<Longrightarrow>
   status_loop data old is st =
     (Inr (fst (fold (merge_entry old) (map f is) st)), snd (fold (merge_entry old) (map f is) st))"
  by (induction "is" arbitrary: st) simp_all

lemma entry_update_Light_init:
  "entry_update e (Light_init (e_id e) (e_mac e) (e_type e) (e_name e)) = light_of e"
  by (simp add: entry_update_def update_status_def Light_init_def light_of_def)

lemma merge_entry_next_ref: "next_ref (snd st) \<le> next_ref (snd (merge_entry old e st))"
  by (cases st) (simp add: merge_entry_def upd_light_def split: option.splits)

lemma fold_merge_next_ref: "next_ref (snd st) \<le> next_ref (snd (fold (merge_entry old) es st))"
proof (induction es arbitrary: st)
  case Nil
  show ?case by simp
next
  case (Cons e es)
  have "next_ref (snd st) \<le> next_ref (snd (merge_entry old e st))" by (rule merge_entry_next_ref)
  also have "\<dots> \<le> next_ref (snd (fold (merge_entry old) es (merge_entry old e st)))"
    by (rule Cons.IH)
  finally show ?case by simp
qed

text \<open>A new address gets a new object with the attributes of its entry.\<close>

lemma merge_entry_new:
  assumes "old (e_mac e) = None"
  shows "fst (merge_entry old e st) (e_mac e) = Some (next_ref (snd st)) \<and>
         heap (snd (merge_entry old e st)) (next_ref (snd st)) = Some (light_of e) \<and>
         next_ref (snd (merge_entry old e st)) = Suc (next_ref (snd st))"
  using assms by (cases st) (simp add: merge_entry_def entry_update_Light_init)

text \<open>An entry with another address leaves the object of an address alone.\<close>

lemma merge_entry_other:
  assumes "e_mac e \<noteq> m" and "fst st m = Some r" and "heap (snd st) r = Some l"
    and "r < next_ref (snd st)" and "r \<notin> ran old"
  shows "fst (merge_entry old e st) m = Some r \<and> heap (snd (merge_entry old e st)) r = Some l \<and>
         r < next_ref (snd (merge_entry old e st))"
proof (cases st)
  case (Pair new s)
  show ?thesis
  proof (cases "old (e_mac e)")
    case None
    with Pair assms show ?thesis by (simp add: merge_entry_def)
  next
    case (Some r')
    then have "r' \<in> ran old" by (auto simp: ran_def)
    with assms(5) have "r' \<noteq> r" by auto
    with Pair Some assms show ?thesis
      by (simp add: merge_entry_def upd_light_def split: option.splits)
  qed
qed

lemma fold_merge_other:
  assumes "\<forall>e\<in>set es. e_mac e \<noteq> m" and "fst st m = Some r" and "heap (snd st) r = Some l"
    and "r < next_ref (snd st)" and "r \<notin> ran old"
  shows "fst (fold (merge_entry old) es st) m = Some r \<and>
         heap (snd (fold (merge_entry old) es st)) r = Some l"
  using assms
proof (induction es arbitrary: st)
  case Nil
  then show ?case by simp
next
  case (Cons e es)
  from Cons.prems have "e_mac e \<noteq> m" by simp
  from merge_entry_other [OF this Cons.prems(2,3,4,5)]
  have "fst (merge_entry old e st) m = Some r" "heap (snd (merge_entry old e st)) r = Some l"
    "r < next_ref (snd (merge_entry old e st))" by simp_all
  with Cons.IH [of "merge_entry old e st"] Cons.prems(1,5) show ?case by simp
qed

text \<open>
  The entry at position \<open>i\<close>, with an address that the old registry does not know and
  that no later entry has, ends as a new object with its attributes.
\<close>

lemma fold_merge_entry:
  assumes i: "i < length es"
    and later: "\<forall>j. i < j \<and> j < length es \<longrightarrow> e_mac (es ! j) \<noteq> e_mac (es ! i)"
    and unknown: "old (e_mac (es ! i)) = None"
    and alloc: "\<forall>a r. old a = Some r \<longrightarrow> r < next_ref (snd st)"
  shows "\<exists>r. fst (fold (merge_entry old) es st) (e_mac (es ! i)) = Some r \<and>
             heap (snd (fold (merge_entry old) es st)) r = Some (light_of (es ! i))"
proof -
  let ?e = "es ! i"
  let ?st1 = "fold (merge_entry old) (take i es) st"
  let ?st2 = "merge_entry old ?e ?st1"
  let ?r = "next_ref (snd ?st1)"
  have es: "es = take i es @ ?e # drop (Suc i) es"
    using i by (simp add: id_take_nth_drop)
  have f: "fold (merge_entry old) es st = fold (merge_entry old) (drop (Suc i) es) ?st2"
    by (subst es) simp
  from merge_entry_new [where old = old and e = ?e and st = ?st1, OF unknown]
  have new: "fst ?st2 (e_mac ?e) = Some ?r" "heap (snd ?st2) ?r = Some (light_of ?e)"
    "next_ref (snd ?st2) = Suc ?r" by simp_all
  have "next_ref (snd st) \<le> ?r" by (rule fold_merge_next_ref)
  with alloc have "?r \<notin> ran old" by (fastforce simp: ran_def)
  moreover have "\<forall>e\<in>set (drop (Suc i) es). e_mac e \<noteq> e_mac ?e"
  proof
    fix e assume "e \<in> set (drop (Suc i) es)"
    then obtain k where k: "k < length (drop (Suc i) es)" "e = drop (Suc i) es ! k"
      by (auto simp: in_set_conv_nth)
    then have "e = es ! (Suc i + k)" and "Suc i + k < length es" by simp_all
    with later show "e_mac e \<noteq> e_mac ?e" by simp
  qed
  moreover have "?r < next_ref (snd ?st2)" using new(3) by simp
  ultimately have "fst (fold (merge_entry old) (drop (Suc i) es) ?st2) (e_mac ?e) = Some ?r \<and>
         heap (snd (fold (merge_entry old) (drop (Suc i) es) ?st2)) ?r = Some (light_of ?e)"
    using new(1,2) by (intro fold_merge_other) simp_all
  with f show ?thesis by auto
qed

text \<open>The loop changes objects and allocates; it leaves the two registries alone.\<close>

lemma merge_entry_registries:
  "lights (snd (merge_entry old e st)) = lights (snd st) \<and>
   groups (snd (merge_entry old e st)) = groups (snd st) \<and>
   seq (snd (merge_entry old e st)) = seq (snd st) \<and>
   sock (snd (merge_entry old e st)) = sock (snd st)"
  by (cases st) (simp add: merge_entry_def upd_light_def split: option.splits)

lemma status_loop_registries:
  "lights (snd (status_loop data old is st)) = lights (snd st) \<and>
   groups (snd (status_loop data old is st)) = groups (snd st)"
proof (induction "is" arbitrary: st)
  case Nil
  show ?case by simp
next
  case (Cons i "is")
  show ?case
  proof (cases "decode_entry (slice (9 + i * 50) (9 + i * 50 + 50) data)")
    case (Inl e)
    then show ?thesis by simp
  next
    case (Inr e)
    with Cons.IH [of "merge_entry old e st"] merge_entry_registries [of old e st]
    show ?thesis by simp
  qed
qed

subsection \<open>The poll of all lights\<close>

lemma send_ok:
  "tx_errors (sock s) = [] \<Longrightarrow>
   send data s = (Inr (), s\<lparr>sock := (sock s)\<lparr>tx := tx (sock s) @ [data]\<rparr>\<rparr>)"
  by (simp add: send_def)

text \<open>A request whose frame is built and whose response arrives in one piece.\<close>

lemma send_recv_ok:
  assumes "tx_errors (sock s) = []" and "rx (sock s) = Chunk (wire_frame body) # rest"
    and "body \<noteq> []" and "length body < 65536"
  shows "send_recv (Inr frame, s) =
           Some (Inr body, s\<lparr>sock := (sock s)\<lparr>tx := tx (sock s) @ [frame], rx := rest\<rparr>\<rparr>)"
proof -
  let ?s1 = "s\<lparr>sock := (sock s)\<lparr>tx := tx (sock s) @ [frame]\<rparr>\<rparr>"
  have "rx (sock ?s1) = Chunk (wire_frame body) # rest" using assms(2) by simp
  from recv_whole_frame [OF this assms(3,4)]
  have "recv ?s1 = Some (Inr body, s\<lparr>sock := (sock s)\<lparr>tx := tx (sock s) @ [frame], rx := rest\<rparr>\<rparr>)"
    by simp
  then show ?thesis by (simp add: send_recv_def send_ok [OF assms(1)])
qed

lemma build_all_light_status_ok:
  assumes "0 \<le> seq s" and "seq s < 255"
  shows "\<exists>frame. build_all_light_status 1 s = (Inr frame, s\<lparr>seq := seq s + 1\<rparr>)"
proof -
  have p: "pack_fields [(1, 1)] = Inr [1]"
    by (simp add: pack_uint_def le_bytes_numeral)
  have h: "pack_fields [(2, 6 + int (length [1::byte])), (1, 0x02), (1, COMMAND_ALL_LIGHT_STATUS),
          (1, 0), (1, 0), (1, 0x7), (1, seq s + 1)] =
        Inr [word_of_int (6 + int (length [1::byte])),
             word_of_int ((6 + int (length [1::byte])) div 256), word_of_int 2,
             word_of_int COMMAND_ALL_LIGHT_STATUS, 0, 0, 7, word_of_int (seq s + 1)]"
    by (rule pack_header) (use assms in \<open>simp_all add: COMMAND_ALL_LIGHT_STATUS_def\<close>)
  show ?thesis
    unfolding build_all_light_status_def build_global_command_def next_seq_def
    by (simp only: p h sum.case Let_def prod.case) blast
qed

lemma length_concat_const:
  "\<forall>x\<in>set xs. length x = k \<Longrightarrow> length (concat xs) = k * length xs"
  by (induction xs) simp_all

lemma status_body_count:
  assumes "length hdr = 7" and "length es < 65536"
  shows "unpack_uint 2 (slice 7 9 (status_body hdr es)) = Inr (int (length es))"
  using assms by (simp add: status_body_def slice_def unpack_uint_def from_le_le_bytes_id)

lemma status_body_entry:
  assumes "length hdr = 7" and "\<forall>e\<in>set es. wf_entry e" and "i < length es"
  shows "decode_entry (slice (9 + i * 50) (9 + i * 50 + 50) (status_body hdr es)) = Inr (es ! i)"
proof -
  have len: "\<forall>x\<in>set (map encode_entry es). length x = 50"
    using assms(2) by (auto simp: wf_entry_def length_encode_entry)
  have "slice (9 + i * 50) (9 + i * 50 + 50) ((hdr @ le_bytes 2 (int (length es))) @ concat (map encode_entry es)) =
          map encode_entry es ! i"
    by (rule slice_concat_nth [OF len]) (simp_all add: assms)
  then have "slice (9 + i * 50) (9 + i * 50 + 50) (status_body hdr es) = encode_entry (es ! i)"
    using assms(3) by (simp add: status_body_def)
  with assms show ?thesis by (simp add: decode_encode_entry)
qed

text \<open>
  C1. A session polls all lights; the response arrives in one piece: seven bytes of
  header, the count, and well-formed entries of 50 bytes in the layout of the
  specification. For the entry at any position, with an address that the registry did
  not know and that no later entry repeats, the poll returns and the registry holds
  under that address a Light with exactly the attribute values of the entry.
\<close>

theorem all_light_status_decodes_entry:
  assumes "0 \<le> seq s" and "seq s < 255" and "tx_errors (sock s) = []"
    and "rx (sock s) = Chunk (wire_frame (status_body hdr es)) # rest"
    and "length hdr = 7" and "length (status_body hdr es) < 65536"
    and "\<forall>e\<in>set es. wf_entry e"
    and "i < length es"
    and "\<forall>j. i < j \<and> j < length es \<longrightarrow> e_mac (es ! j) \<noteq> e_mac (es ! i)"
    and "lights s (e_mac (es ! i)) = None"
    and "\<forall>a r. lights s a = Some r \<longrightarrow> r < next_ref s"
  shows "\<exists>s' r. update_all_light_status s = Some (Inr (), s') \<and>
           lights s' (e_mac (es ! i)) = Some r \<and> heap s' r = Some (light_of (es ! i))"
proof -
  let ?body = "status_body hdr es"
  obtain frame where b: "build_all_light_status 1 s = (Inr frame, s\<lparr>seq := seq s + 1\<rparr>)"
    using build_all_light_status_ok [OF assms(1,2)] by blast
  let ?s1 = "s\<lparr>seq := seq s + 1\<rparr>"
  let ?s2 = "?s1\<lparr>sock := (sock ?s1)\<lparr>tx := tx (sock ?s1) @ [frame], rx := rest\<rparr>\<rparr>"
  have ne: "?body \<noteq> []" using assms(5) by (auto simp: status_body_def)
  have sr: "send_recv (build_all_light_status 1 s) = Some (Inr ?body, ?s2)"
    unfolding b by (rule send_recv_ok) (simp_all add: assms ne)
  have "length (concat (map encode_entry es)) = 50 * length (map encode_entry es)"
    by (rule length_concat_const) (use assms(7) in \<open>auto simp: wf_entry_def length_encode_entry\<close>)
  with assms(6) have n: "length es < 65536" by (simp add: status_body_def)
  have cnt: "unpack_uint 2 (slice 7 9 ?body) = Inr (int (length es))"
    by (rule status_body_count [OF assms(5) n])
  let ?st = "fold (merge_entry (lights ?s2)) es (Map.empty, ?s2)"
  have "\<forall>k\<in>set [0..<length es]. decode_entry (slice (9 + k * 50) (9 + k * 50 + 50) ?body) =
          Inr (es ! k)"
    using status_body_entry [OF assms(5,7)] by simp
  from status_loop_decoded [OF this]
  have loop: "status_loop ?body (lights ?s2) [0..<length es] (Map.empty, ?s2) = (Inr (fst ?st), snd ?st)"
    by (simp add: map_nth)
  have res: "update_all_light_status s = Some (Inr (), (snd ?st)\<lparr>lights := fst ?st\<rparr>)"
    unfolding update_all_light_status_def using loop by (simp add: sr cnt)
  have "\<exists>r. fst ?st (e_mac (es ! i)) = Some r \<and> heap (snd ?st) r = Some (light_of (es ! i))"
    by (rule fold_merge_entry) (use assms in simp_all)
  with res show ?thesis by auto
qed

text \<open>The entry of the example is well formed; these are its 50 bytes.\<close>

lemma wf_test_entry: "wf_entry test_entry"
  by (simp add: wf_entry_def in_range_def test_entry_def)

lemma encode_test_entry:
  "encode_entry test_entry =
     [0x01, 0x00, 0x11, 0x00, 0xFF, 0xEE, 0xDD, 0xCC, 0xBB, 0xAA, 0x02,
      0x01, 0x02, 0x03, 0x04, 0x01, 0x03, 0x00, 0x01, 0x80, 0x8C, 0x0A,
      0xFF, 0xC8, 0x96, 0xFF, 0x54, 0x65, 0x73, 0x74,
      0, 0, 0, 0, 0, 0, 0, 0, 0, 0, 0, 0, 0, 0, 0, 0, 0, 0, 0, 0]"
proof -
  have r: "replicate 12 (0::byte) = [0, 0, 0, 0, 0, 0, 0, 0, 0, 0, 0, 0]"
    by (simp add: eval_nat_numeral)
  show ?thesis
    by (simp add: encode_entry_def test_entry_def le_bytes_numeral r)
qed

theorem all_light_status_decodes_entry_witness:
  "\<exists>s' r. update_all_light_status
            (Lightify_init (plain_socket
               [Chunk (wire_frame (status_body [0, 0x13, 0, 0, 0, 0, 0] [test_entry]))])) =
            Some (Inr (), s') \<and>
          lights s' 0xAABBCCDDEEFF0011 = Some r \<and>
          heap s' r =
            Some \<lparr>l_name = [0x54, 0x65, 0x73, 0x74], l_id = 1, l_addr = 0xAABBCCDDEEFF0011,
                  l_type = 2, l_fwVersion = Some 0x01020304, l_online = Some 1,
                  l_groupId = Some 3, l_on = Some 1, l_lum = Some 128, l_temp = Some 2700,
                  l_r = Some 255, l_g = Some 200, l_b = Some 150, l_alpha = Some 255,
                  l_status_name = Some [0x54, 0x65, 0x73, 0x74]\<rparr>"
proof -
  let ?hdr = "[0, 0x13, 0, 0, 0, 0, 0] :: bytes"
  let ?s = "Lightify_init (plain_socket [Chunk (wire_frame (status_body ?hdr [test_entry]))])"
  have len: "length (status_body ?hdr [test_entry]) < 65536"
    by (simp add: status_body_def length_encode_entry test_entry_def)
  have "\<exists>s' r. update_all_light_status ?s = Some (Inr (), s') \<and>
           lights s' (e_mac ([test_entry] ! 0)) = Some r \<and>
           heap s' r = Some (light_of ([test_entry] ! 0))"
  proof (rule all_light_status_decodes_entry [where rest = "[]"])
    show "0 \<le> seq ?s" "seq ?s < 255" "tx_errors (sock ?s) = []"
      "rx (sock ?s) = [Chunk (wire_frame (status_body ?hdr [test_entry]))]"
      by (simp_all add: Lightify_init_def plain_socket_def)
    show "length ?hdr = 7" by simp
    show "length (status_body ?hdr [test_entry]) < 65536" by (rule len)
    show "\<forall>e\<in>set [test_entry]. wf_entry e" by (simp add: wf_test_entry)
    show "0 < length [test_entry]" by simp
    show "\<forall>j. 0 < j \<and> j < length [test_entry] \<longrightarrow>
            e_mac ([test_entry] ! j) \<noteq> e_mac ([test_entry] ! 0)" by auto
    show "lights ?s (e_mac ([test_entry] ! 0)) = None" by (simp add: Lightify_init_def)
    show "\<forall>a r. lights ?s a = Some r \<longrightarrow> r < next_ref ?s" by (simp add: Lightify_init_def)
  qed
  then show ?thesis by (simp add: light_of_def test_entry_def)
qed

text \<open>
  A light that the registry knows stays the same object: the poll overwrites its
  status attributes and keeps the id, the type and the name that \<open>name()\<close> returns.
\<close>

lemma merge_entry_known:
  assumes "old (e_mac e) = Some r" and "heap (snd st) r = Some l"
  shows "fst (merge_entry old e st) (e_mac e) = Some r \<and>
         heap (snd (merge_entry old e st)) r = Some (entry_update e l) \<and>
         l_name (entry_update e l) = l_name l \<and> l_id (entry_update e l) = l_id l \<and>
         l_type (entry_update e l) = l_type l \<and> l_lum (entry_update e l) = Some (e_brightness e)"
  using assms
  by (cases st) (simp add: merge_entry_def upd_light_def entry_update_def update_status_def)

subsection \<open>A refresh that fails\<close>

lemma group_list_same_objects:
  assumes "group_list s = Some y"
  shows "same_objects s (snd y)"
proof -
  from assms obtain z where z: "send_recv (build_group_list s) = Some z" and "snd z = snd y"
    unfolding group_list_def by (auto split: option.splits prod.splits sum.splits)
  moreover have "same_objects s (snd (build_group_list s))"
    unfolding build_group_list_def by (rule build_global_same_objects)
  ultimately show ?thesis using send_recv_same_objects [of s "build_group_list s" z] by simp
qed

lemma group_info_same_objects:
  assumes "group_info grp s = Some y"
  shows "same_objects s (snd y)"
proof -
  from assms obtain z where z: "send_recv (build_group_info grp s) = Some z" and "snd z = snd y"
    unfolding group_info_def by (auto split: option.splits prod.splits sum.splits)
  moreover have "same_objects s (snd (build_group_info grp s))"
    unfolding build_group_info_def by (rule build_command_same_objects)
  ultimately show ?thesis using send_recv_same_objects [of s "build_group_info grp s" z] by simp
qed

lemma update_group_loop_same_objects:
  "update_group_loop items grps s = Some y \<Longrightarrow> same_objects s (snd y)"
proof (induction items arbitrary: grps s)
  case Nil
  then show ?case by (auto simp: same_objects_def)
next
  case (Cons item items)
  obtain idx name where item: "item = (idx, name)" by (cases item)
  show ?case
  proof (cases "group_info (Group_init idx name) s")
    case None
    with Cons.prems item show ?thesis by simp
  next
    case (Some z)
    note gi = group_info_same_objects [OF Some]
    obtain res s1 where z: "z = (res, s1)" by (cases z)
    show ?thesis
    proof (cases res)
      case (Inl e)
      with Cons.prems item Some z gi show ?thesis by auto
    next
      case (Inr members)
      with Cons.prems item Some z
      have "update_group_loop items
              (grps(name \<mapsto> (Group_init idx name)\<lparr>g_lights := members\<rparr>)) s1 = Some y"
        by simp
      from Cons.IH [OF this] gi z show ?thesis by (auto intro: same_objects_trans)
    qed
  qed
qed

lemma update_group_list_raises:
  assumes "update_group_list iteritems s = Some (Inl e, s')"
  shows "groups s' = groups s"
proof (cases "group_list s")
  case None
  with assms show ?thesis by (simp add: update_group_list_def)
next
  case (Some z)
  note gl = group_list_same_objects [OF Some]
  obtain res s1 where z: "z = (res, s1)" by (cases z)
  show ?thesis
  proof (cases res)
    case (Inl e')
    with assms Some z gl show ?thesis by (auto simp: update_group_list_def same_objects_def)
  next
    case (Inr lst)
    with assms Some z obtain y where y: "update_group_loop (iteritems lst) Map.empty s1 = Some y"
      and s': "snd y = s'"
      by (auto simp: update_group_list_def split: option.splits prod.splits sum.splits)
    from update_group_loop_same_objects [OF y] gl z s' show ?thesis
      by (auto simp: same_objects_def)
  qed
qed

lemma update_all_light_status_raises:
  assumes "update_all_light_status s = Some (Inl e, s')"
  shows "lights s' = lights s"
proof -
  have b: "same_objects s (snd (build_all_light_status 1 s))"
    unfolding build_all_light_status_def
    by (simp add: build_global_same_objects split: sum.splits) (simp add: same_objects_def)
  from assms obtain z where z: "send_recv (build_all_light_status 1 s) = Some z"
    by (auto simp: update_all_light_status_def split: option.splits)
  obtain res s1 where zz: "z = (res, s1)" by (cases z)
  from send_recv_same_objects [OF b z] zz have s1: "lights s1 = lights s"
    by (simp add: same_objects_def)
  show ?thesis
  proof (cases res)
    case (Inl e')
    with assms z zz s1 show ?thesis by (simp add: update_all_light_status_def)
  next
    case (Inr data)
    show ?thesis
    proof (cases "unpack_uint 2 (slice 7 9 data)")
      case (Inl e')
      with assms z zz \<open>res = Inr data\<close> s1 show ?thesis
        by (simp add: update_all_light_status_def)
    next
      case (Inr num)
      with assms z zz \<open>res = Inr data\<close>
      have "s' = snd (status_loop data (lights s1) [0..<nat num] (Map.empty, s1))"
        by (auto simp: update_all_light_status_def split: prod.splits sum.splits)
      with status_loop_registries [of data "lights s1" "[0..<nat num]" "(Map.empty, s1)"] s1
      show ?thesis by simp
    qed
  qed
qed

text \<open>
  C8 as amended. When \<open>update_group_list\<close> raises, the group registry is as it was
  before the call. When \<open>update_all_light_status\<close> raises, the light registry maps
  the same addresses to the same objects as before the call.
\<close>

theorem failed_refresh_keeps_registry:
  "(update_group_list iteritems s = Some (Inl e, s') \<longrightarrow> groups s' = groups s) \<and>
   (update_all_light_status s = Some (Inl e, s') \<longrightarrow> lights s' = lights s)"
  using update_group_list_raises update_all_light_status_raises by blast

text \<open>
  The group refresh of the witness: the group list arrives, the group-info request
  for its one group is sent, and reading the answer raises.
\<close>

lemma example_group_refresh_raises:
  "map_option fst
     (update_group_list (\<lambda>items. items)
        (one_group (plain_socket [Chunk (wire_frame kitchen_list), RxError]))) =
   Some (Inl SocketError)"
  by (simp add: update_group_list_def group_list_def build_group_list_def
      build_global_command_def next_seq_def pack_uint_def le_bytes_numeral send_recv_def
      send_def recv_def recv_loop_pos recv_loop_nonpos unpack_uint_def slice_def
      unpack_H16s_def strip_nul_def group_info_def build_group_info_def build_command_def
      build_basic_command_def Group_init_def COMMAND_GROUP_LIST_def COMMAND_GROUP_INFO_def
      one_group_def Lightify_init_def plain_socket_def wire_frame_def kitchen_list_def)

text \<open>
  The poll of the counterexample: the first entry is decoded and merged into the
  light that the registry knows, then the second entry is missing.
\<close>

lemma wf_dimmed_entry: "wf_entry dimmed_entry"
  by (simp add: wf_entry_def in_range_def dimmed_entry_def test_entry_def)

lemma truncated_status_entries:
  "decode_entry (slice 9 59 truncated_status) = Inr dimmed_entry"
  "decode_entry (slice 59 109 truncated_status) = Inl StructError"
proof -
  have len: "length (encode_entry dimmed_entry) = 50"
    by (rule length_encode_entry) (simp add: dimmed_entry_def test_entry_def)
  then have "slice 9 59 truncated_status = encode_entry dimmed_entry"
    by (simp add: truncated_status_def slice_def)
  then show "decode_entry (slice 9 59 truncated_status) = Inr dimmed_entry"
    by (simp only: decode_encode_entry [OF wf_dimmed_entry])
  from len have "slice 59 109 truncated_status = []"
    by (simp add: truncated_status_def slice_def)
  then show "decode_entry (slice 59 109 truncated_status) = Inl StructError"
    by (simp add: decode_entry_def bind_err_def unpack_uint_def slice_def)
qed

lemma example_poll_raises:
  "\<exists>s1. same_objects (one_light (plain_socket [Chunk (wire_frame truncated_status)])) s1 \<and>
     update_all_light_status (one_light (plain_socket [Chunk (wire_frame truncated_status)])) =
       Some (Inl StructError, upd_light 0 (entry_update dimmed_entry) s1)"
proof -
  let ?s = "one_light (plain_socket [Chunk (wire_frame truncated_status)])"
  have sq: "0 \<le> seq ?s" "seq ?s < 255" by (simp_all add: one_light_def Lightify_init_def)
  obtain frame where b: "build_all_light_status 1 ?s = (Inr frame, ?s\<lparr>seq := seq ?s + 1\<rparr>)"
    using build_all_light_status_ok [OF sq] by blast
  let ?s1 = "?s\<lparr>seq := seq ?s + 1\<rparr>"
  let ?s2 = "?s1\<lparr>sock := (sock ?s1)\<lparr>tx := tx (sock ?s1) @ [frame], rx := []\<rparr>\<rparr>"
  have len: "length truncated_status = 59"
    by (simp add: truncated_status_def length_encode_entry dimmed_entry_def test_entry_def)
  have sr: "send_recv (build_all_light_status 1 ?s) = Some (Inr truncated_status, ?s2)"
    unfolding b
  proof (rule send_recv_ok)
    show "tx_errors (sock ?s1) = []" "rx (sock ?s1) = [Chunk (wire_frame truncated_status)]"
      by (simp_all add: one_light_def Lightify_init_def plain_socket_def)
    show "truncated_status \<noteq> []" using len by auto
    show "length truncated_status < 65536" using len by simp
  qed
  have cnt: "unpack_uint 2 (slice 7 9 truncated_status) = Inr 2"
    by (simp add: truncated_status_def slice_def unpack_uint_def le_bytes_numeral)
  have known: "lights ?s2 (e_mac dimmed_entry) = Some 0"
    by (simp add: one_light_def dimmed_entry_def)
  have two: "[0..<nat 2] = [0, 1]" by (simp add: upt_rec)
  have loop: "status_loop truncated_status (lights ?s2) [0, 1] (Map.empty, ?s2) =
                (Inl StructError, upd_light 0 (entry_update dimmed_entry) ?s2)"
    using truncated_status_entries known by (simp add: merge_entry_def)
  have "update_all_light_status ?s =
          (case status_loop truncated_status (lights ?s2) [0..<nat 2] (Map.empty, ?s2) of
             (Inl e, s'') \<Rightarrow> Some (Inl e, s'')
           | (Inr new_lights, s'') \<Rightarrow> Some (Inr (), s''\<lparr>lights := new_lights\<rparr>))"
    unfolding update_all_light_status_def
    by (simp only: sr cnt option.case prod.case sum.case)
  then have "update_all_light_status ?s =
          Some (Inl StructError, upd_light 0 (entry_update dimmed_entry) ?s2)"
    by (simp only: two loop prod.case sum.case)
  moreover have "same_objects ?s ?s2" by (simp add: same_objects_def)
  ultimately show ?thesis by blast
qed

theorem failed_refresh_keeps_registry_witness:
  "(\<exists>s'. update_group_list (\<lambda>items. items)
            (one_group (plain_socket [Chunk (wire_frame kitchen_list), RxError])) =
            Some (Inl SocketError, s') \<and>
          groups s' = groups (one_group (plain_socket [Chunk (wire_frame kitchen_list), RxError]))) \<and>
   (\<exists>s'. update_all_light_status (one_light (plain_socket [Chunk (wire_frame truncated_status)])) =
            Some (Inl StructError, s') \<and>
          lights s' = lights (one_light (plain_socket [Chunk (wire_frame truncated_status)])))"
proof -
  obtain s1 where s1: "update_group_list (\<lambda>items. items)
            (one_group (plain_socket [Chunk (wire_frame kitchen_list), RxError])) =
            Some (Inl SocketError, s1)"
    using outcome_state [OF example_group_refresh_raises] by blast
  obtain s2 where s2: "update_all_light_status
            (one_light (plain_socket [Chunk (wire_frame truncated_status)])) =
            Some (Inl StructError, s2)"
    using example_poll_raises by blast
  from failed_refresh_keeps_registry [where s' = s1 and e = SocketError] s1
  have "groups s1 = groups (one_group (plain_socket [Chunk (wire_frame kitchen_list), RxError]))"
    by blast
  moreover from failed_refresh_keeps_registry [where s' = s2 and e = StructError] s2
  have "lights s2 = lights (one_light (plain_socket [Chunk (wire_frame truncated_status)]))"
    by blast
  ultimately show ?thesis using s1 s2 by blast
qed

text \<open>
  The claim as stated fails for the light registry: the poll raises
  \<open>struct.error\<close> at the second entry, and the light that the registry holds under the
  address of the first entry, with luminance 128 before the call, has luminance 10
  after it.
\<close>

theorem failed_poll_overwrites_known_light:
  "map_option fst
     (update_all_light_status (one_light (plain_socket [Chunk (wire_frame truncated_status)]))) =
     Some (Inl StructError) \<and>
   lights (one_light (plain_socket [Chunk (wire_frame truncated_status)])) (e_mac test_entry) = Some 0 \<and>
   attr l_lum 0 (one_light (plain_socket [Chunk (wire_frame truncated_status)])) = Some 128 \<and>
   lights (snd (the (update_all_light_status
      (one_light (plain_socket [Chunk (wire_frame truncated_status)]))))) (e_mac test_entry) = Some 0 \<and>
   attr l_lum 0 (snd (the (update_all_light_status
      (one_light (plain_socket [Chunk (wire_frame truncated_status)]))))) = Some 10"
proof -
  let ?s = "one_light (plain_socket [Chunk (wire_frame truncated_status)])"
  obtain s1 where so: "same_objects ?s s1"
    and r: "update_all_light_status ?s =
              Some (Inl StructError, upd_light 0 (entry_update dimmed_entry) s1)"
    using example_poll_raises by blast
  from so have h: "heap s1 0 = Some (light_of test_entry)" and l: "lights s1 = lights ?s"
    by (simp_all add: same_objects_def one_light_def)
  have a: "lights ?s (e_mac test_entry) = Some 0" "attr l_lum 0 ?s = Some 128"
    by (simp_all add: one_light_def attr_def light_of_def test_entry_def)
  have "attr l_lum 0 (upd_light 0 (entry_update dimmed_entry) s1) = Some 10"
    using h by (simp add: attr_def upd_light_def entry_update_def update_status_def
        dimmed_entry_def)
  moreover have "lights (upd_light 0 (entry_update dimmed_entry) s1) (e_mac test_entry) = Some 0"
    using h l a(1) by (simp add: upd_light_def)
  ultimately show ?thesis using a by (simp add: r)
qed

end
